theory Spec2Isabelle
  imports Main "HOL-Library.AList"
begin

section \<open>JavaScript maps\<close>

text \<open>
  A JavaScript \<open>Map<string, T>\<close> is an association list in insertion order:
  \<open>set\<close> on a key already present keeps its position, \<open>set\<close> on a new key appends,
  \<open>delete\<close> removes the key, \<open>get\<close> on a missing key is \<open>undefined\<close> (\<open>None\<close>).
\<close>

type_synonym 'a JSMap = "(string \<times> 'a) list"

definition Map_has :: "'a JSMap \<Rightarrow> string \<Rightarrow> bool" where
  "Map_has m k = (case map_of m k of None \<Rightarrow> False | Some _ \<Rightarrow> True)"

definition Map_get :: "'a JSMap \<Rightarrow> string \<Rightarrow> 'a option" where
  "Map_get m k = map_of m k"

definition Map_set :: "string \<Rightarrow> 'a \<Rightarrow> 'a JSMap \<Rightarrow> 'a JSMap" where
  "Map_set k v m = AList.update k v m"

definition Map_delete :: "string \<Rightarrow> 'a JSMap \<Rightarrow> 'a JSMap" where
  "Map_delete k m = AList.delete k m"

section \<open>Data model of directory.ts\<close>

datatype error = TypeError | SyntaxError | Error string | PromiseRejected

text \<open>
  Modelled from the spec: the local value \<open>{ value, type }\<close> of localValues.ts, which is
  not among the sources; the live object is kept as an opaque string.
\<close>

record ILocalValue =
  lv_value :: string
  lv_type :: string

record ISerializableValue =
  sv_type :: string
  sv_value :: string

record IValueTypeOperationValue =
  opName :: string
  opParams :: string

datatype IDirectoryOperation =
    SetOp (op_key: string) (op_path: string) (op_value: ISerializableValue)
  | DeleteOp (op_key: string) (op_path: string)
  | ClearOp (op_path: string)
  | CreateSubDirectoryOp (op_path: string) (op_subdirName: string)
  | DeleteSubDirectoryOp (op_path: string) (op_subdirName: string)
  | ActOp (op_key: string) (op_path: string) (op_act: IValueTypeOperationValue)
  | OtherOp (other_type: string) (op_path: string)

fun op_type :: "IDirectoryOperation \<Rightarrow> string" where
  "op_type (SetOp k p v) = ''set''"
| "op_type (DeleteOp k p) = ''delete''"
| "op_type (ClearOp p) = ''clear''"
| "op_type (CreateSubDirectoryOp p n) = ''createSubDirectory''"
| "op_type (DeleteSubDirectoryOp p n) = ''deleteSubDirectory''"
| "op_type (ActOp k p v) = ''act''"
| "op_type (OtherOp t p) = t"

record ISequencedDocumentMessage =
  clientSequenceNumber :: int
  referenceSequenceNumber :: int
  sequenceNumber :: int
  message_type :: string
  clientId :: string
  contents :: IDirectoryOperation

text \<open>The events handed to \<open>directory.emit\<close>, in the order they are emitted.\<close>

record IDirectoryValueChanged =
  ev_key :: string
  ev_path :: "string option"
  previousValue :: "string option"

datatype DirectoryEvent =
    ValueChanged IDirectoryValueChanged bool "ISequencedDocumentMessage option"
  | Clear bool "IDirectoryOperation option"

text \<open>
  A node of the directory tree. A slot of \<open>_storage\<close> holds a local value or JavaScript's
  \<open>undefined\<close> (\<open>None\<close>): \<open>Map.set(key, undefined)\<close> makes the key present.
  \<open>pendingClearClientSequenceNumber\<close> is \<open>-1\<close> when no local clear is outstanding.
\<close>

datatype SubDirectory = SubDirectory
  (absolutePath: string)
  (storage: "ILocalValue option JSMap")
  (subdirectories: "SubDirectory JSMap")
  (pendingKeys: "int JSMap")
  (pendingSubDirectories: "int JSMap")
  (pendingClearClientSequenceNumber: int)

definition with_storage :: "ILocalValue option JSMap \<Rightarrow> SubDirectory \<Rightarrow> SubDirectory" where
  "with_storage s n = SubDirectory (absolutePath n) s (subdirectories n) (pendingKeys n)
     (pendingSubDirectories n) (pendingClearClientSequenceNumber n)"

definition with_subdirectories :: "SubDirectory JSMap \<Rightarrow> SubDirectory \<Rightarrow> SubDirectory" where
  "with_subdirectories c n = SubDirectory (absolutePath n) (storage n) c (pendingKeys n)
     (pendingSubDirectories n) (pendingClearClientSequenceNumber n)"

definition with_pendingKeys :: "int JSMap \<Rightarrow> SubDirectory \<Rightarrow> SubDirectory" where
  "with_pendingKeys p n = SubDirectory (absolutePath n) (storage n) (subdirectories n) p
     (pendingSubDirectories n) (pendingClearClientSequenceNumber n)"

definition with_pendingSubDirectories :: "int JSMap \<Rightarrow> SubDirectory \<Rightarrow> SubDirectory" where
  "with_pendingSubDirectories p n = SubDirectory (absolutePath n) (storage n) (subdirectories n)
     (pendingKeys n) p (pendingClearClientSequenceNumber n)"

definition with_pendingClear :: "int \<Rightarrow> SubDirectory \<Rightarrow> SubDirectory" where
  "with_pendingClear c n = SubDirectory (absolutePath n) (storage n) (subdirectories n)
     (pendingKeys n) (pendingSubDirectories n) c"

text \<open>
  Modelled from the spec: \<open>submitLocalMessage\<close> and \<open>emit\<close> of the SharedObject base
  class, which is not among the sources. Submitting returns the assigned
  client-sequence-number, or \<open>-1\<close> when not attached, in which case the operation is
  queued as pending-unsubmitted. \<open>clientSeq\<close> is the last number the facade assigned.
\<close>

record SharedObjectState =
  attached :: bool
  clientSeq :: int
  submitted :: "IDirectoryOperation list"
  pendingUnsubmitted :: "IDirectoryOperation list"
  emitted :: "DirectoryEvent list"

definition submitLocalMessage ::
  "SharedObjectState \<Rightarrow> IDirectoryOperation \<Rightarrow> int \<times> SharedObjectState" where
  "submitLocalMessage e op =
     (if attached e
      then (clientSeq e + 1, e\<lparr>clientSeq := clientSeq e + 1, submitted := submitted e @ [op]\<rparr>)
      else (- 1, e\<lparr>pendingUnsubmitted := pendingUnsubmitted e @ [op]\<rparr>))"

definition emit :: "SharedObjectState \<Rightarrow> DirectoryEvent \<Rightarrow> SharedObjectState" where
  "emit e ev = e\<lparr>emitted := emitted e @ [ev]\<rparr>"

definition submitDirectoryMessage ::
  "SharedObjectState \<Rightarrow> IDirectoryOperation \<Rightarrow> int \<times> SharedObjectState" where
  "submitDirectoryMessage e op = submitLocalMessage e op"

section \<open>POSIX paths\<close>

text \<open>
  Modelled from the spec: \<open>posix.sep\<close>, \<open>posix.resolve\<close> and \<open>posix.join\<close> of the
  \<open>path\<close> module, which is not among the sources. A path is cut at every \<open>/\<close>; empty
  segments and \<open>.\<close> are dropped, \<open>..\<close> removes the segment before it (at the root of an
  absolute path it is dropped, in a relative path it is kept). \<open>resolve\<close> reads its
  arguments from the right until the path is absolute and falls back on the working
  directory \<open>cwd\<close> of the process.
\<close>

definition posix_sep :: string where
  "posix_sep = ''/''"

fun split_sep :: "string \<Rightarrow> string list" where
  "split_sep [] = [[]]"
| "split_sep (c # cs) =
     (if c = CHR ''/'' then [] # split_sep cs
      else (case split_sep cs of s # ss \<Rightarrow> (c # s) # ss | [] \<Rightarrow> [[c]]))"

fun join_sep :: "string list \<Rightarrow> string" where
  "join_sep [] = []"
| "join_sep [s] = s"
| "join_sep (s # t # ts) = s @ ''/'' @ join_sep (t # ts)"

text \<open>The segments kept so far are held newest first.\<close>

definition normalize_step :: "bool \<Rightarrow> string list \<Rightarrow> string \<Rightarrow> string list" where
  "normalize_step allowAboveRoot res s =
     (if s = [] \<or> s = ''.'' then res
      else if s = ''..'' then
        (case res of
           t # ts \<Rightarrow> if t \<noteq> ''..'' then ts else if allowAboveRoot then ''..'' # res else res
         | [] \<Rightarrow> if allowAboveRoot then [''..''] else [])
      else s # res)"

definition normalizeString :: "string \<Rightarrow> bool \<Rightarrow> string" where
  "normalizeString path allowAboveRoot =
     join_sep (rev (foldl (normalize_step allowAboveRoot) [] (split_sep path)))"

definition isAbsolute :: "string \<Rightarrow> bool" where
  "isAbsolute p = (case p of [] \<Rightarrow> False | c # cs \<Rightarrow> c = CHR ''/'')"

fun resolve_args :: "string list \<Rightarrow> string \<Rightarrow> string \<times> bool" where
  "resolve_args [] resolvedPath = (resolvedPath, False)"
| "resolve_args (p # ps) resolvedPath =
     (if p = [] then resolve_args ps resolvedPath
      else if isAbsolute p then (p @ ''/'' @ resolvedPath, True)
      else resolve_args ps (p @ ''/'' @ resolvedPath))"

definition posix_resolve :: "string \<Rightarrow> string list \<Rightarrow> string" where
  "posix_resolve cwd args =
     (case resolve_args (rev args @ [cwd]) [] of
        (resolvedPath, resolvedAbsolute) \<Rightarrow>
          (let normalized = normalizeString resolvedPath (\<not> resolvedAbsolute)
           in if resolvedAbsolute then ''/'' @ normalized
              else if normalized \<noteq> [] then normalized else ''.''))"

definition posix_normalize :: "string \<Rightarrow> string" where
  "posix_normalize path =
     (if path = [] then ''.''
      else (let isAbs = isAbsolute path;
                trailingSeparator = (last path = CHR ''/'');
                normalized = normalizeString path (\<not> isAbs)
            in if normalized = [] then (if isAbs then ''/'' else if trailingSeparator then ''./'' else ''.'')
               else (if isAbs then ''/'' else []) @ normalized
                    @ (if trailingSeparator then ''/'' else [])))"

definition posix_join :: "string list \<Rightarrow> string" where
  "posix_join args =
     (let joined = join_sep (filter (\<lambda>a. a \<noteq> []) args)
      in if joined = [] then ''.'' else posix_normalize joined)"


section \<open>Value types\<close>

text \<open>
  Modelled from the spec: the LocalValueMaker and the value-type operation handlers of
  localValues.ts, which is not among the sources. They are parameters of the model;
  an \<open>Inl\<close> result is a throw or a rejected promise. A handler's \<open>process\<close> changes the live
  value in place, so it returns the value afterwards.
\<close>

record IValueOperation =
  vo_prepare :: "string \<Rightarrow> string \<Rightarrow> bool \<Rightarrow> ISequencedDocumentMessage \<Rightarrow> error + ILocalValue option"
  vo_process :: "string \<Rightarrow> string \<Rightarrow> ILocalValue option \<Rightarrow> bool \<Rightarrow> ISequencedDocumentMessage \<Rightarrow> error + string"

record LocalValueMaker =
  makeValueType :: "string \<Rightarrow> string \<Rightarrow> error + ILocalValue"
  fromInMemory :: "string \<Rightarrow> ILocalValue"
  makeSerializable :: "ILocalValue \<Rightarrow> ISerializableValue"
  fromSerializable :: "ISerializableValue \<Rightarrow> error + ILocalValue"
  getOpHandler :: "ILocalValue \<Rightarrow> string \<Rightarrow> IValueOperation option"

section \<open>SubDirectory: reading and the core mutators\<close>

definition SubDirectory_has :: "SubDirectory \<Rightarrow> string \<Rightarrow> bool" where
  "SubDirectory_has n k = Map_has (storage n) k"

text \<open>
  \<open>get\<close> dereferences \<open>.value\<close> of the slot once \<open>has\<close> holds; on an \<open>undefined\<close>
  slot that is a TypeError.
\<close>

definition SubDirectory_get :: "SubDirectory \<Rightarrow> string \<Rightarrow> error + string option" where
  "SubDirectory_get n k =
     (if \<not> Map_has (storage n) k then Inr None
      else (case Map_get (storage n) k of
              Some (Some lv) \<Rightarrow> Inr (Some (lv_value lv))
            | _ \<Rightarrow> Inl TypeError))"

definition getLocalValue :: "SubDirectory \<Rightarrow> string \<Rightarrow> ILocalValue option" where
  "getLocalValue n k = (case Map_get (storage n) k of Some slot \<Rightarrow> slot | None \<Rightarrow> None)"

definition getSubDirectory :: "SubDirectory \<Rightarrow> string \<Rightarrow> SubDirectory option" where
  "getSubDirectory n name = Map_get (subdirectories n) name"

definition hasSubDirectory :: "SubDirectory \<Rightarrow> string \<Rightarrow> bool" where
  "hasSubDirectory n name = Map_has (subdirectories n) name"

text \<open>
  The mutators return the node and the facade state after the call. An \<open>Inl\<close> result is
  an exception; each one below is raised before the call has changed anything.
\<close>

definition setCore ::
  "SubDirectory \<Rightarrow> SharedObjectState \<Rightarrow> string \<Rightarrow> ILocalValue option \<Rightarrow> bool \<Rightarrow>
   ISequencedDocumentMessage option \<Rightarrow> error + (SubDirectory \<times> SharedObjectState)" where
  "setCore n e key v local op =
     (case SubDirectory_get n key of
        Inl err \<Rightarrow> Inl err
      | Inr prev \<Rightarrow>
          Inr (with_storage (Map_set key v (storage n)) n,
               emit e (ValueChanged
                 \<lparr>ev_key = key, ev_path = Some (absolutePath n), previousValue = prev\<rparr> local op)))"

definition deleteCore ::
  "SubDirectory \<Rightarrow> SharedObjectState \<Rightarrow> string \<Rightarrow> bool \<Rightarrow>
   ISequencedDocumentMessage option \<Rightarrow> error + (bool \<times> SubDirectory \<times> SharedObjectState)" where
  "deleteCore n e key local op =
     (case SubDirectory_get n key of
        Inl err \<Rightarrow> Inl err
      | Inr prev \<Rightarrow>
          (let successfullyRemoved = Map_has (storage n) key;
               n' = with_storage (Map_delete key (storage n)) n
           in Inr (successfullyRemoved, n',
                   if successfullyRemoved
                   then emit e (ValueChanged
                     \<lparr>ev_key = key, ev_path = Some (absolutePath n), previousValue = prev\<rparr> local op)
                   else e)))"

definition clearCore ::
  "SubDirectory \<Rightarrow> SharedObjectState \<Rightarrow> bool \<Rightarrow> SubDirectory \<times> SharedObjectState" where
  "clearCore n e local = (with_storage [] n, emit e (Clear local None))"

text \<open>
  \<open>clearExceptPendingKeys\<close>: a temporary map receives, for every pending key, whatever
  \<open>_storage.get(key)\<close> returns (\<open>undefined\<close> for a key that is not stored); the storage is
  cleared and refilled from the temporary map.
\<close>

definition clearExceptPendingKeys :: "SubDirectory \<Rightarrow> SubDirectory" where
  "clearExceptPendingKeys n =
     (let temp = foldl (\<lambda>t (key, cs). Map_set key (getLocalValue n key) t) [] (pendingKeys n)
      in with_storage (foldl (\<lambda>s (key, v). Map_set key v s) [] temp) n)"

section \<open>SubDirectory: reconciliation of inbound messages\<close>

definition needProcessStorageOperations ::
  "SubDirectory \<Rightarrow> IDirectoryOperation \<Rightarrow> bool \<Rightarrow> ISequencedDocumentMessage \<Rightarrow>
   bool \<times> SubDirectory" where
  "needProcessStorageOperations n op local message =
     (if pendingClearClientSequenceNumber n \<noteq> - 1 then (False, n)
      else if length (pendingKeys n) \<noteq> 0 \<and> Map_has (pendingKeys n) (op_key op) then
        (False,
         if local \<and> Map_get (pendingKeys n) (op_key op) = Some (clientSequenceNumber message)
         then with_pendingKeys (Map_delete (op_key op) (pendingKeys n)) n
         else n)
      else (\<not> local, n))"

definition needProcessSubDirectoryOperations ::
  "SubDirectory \<Rightarrow> IDirectoryOperation \<Rightarrow> bool \<Rightarrow> ISequencedDocumentMessage \<Rightarrow>
   bool \<times> SubDirectory" where
  "needProcessSubDirectoryOperations n op local message =
     (if Map_has (pendingSubDirectories n) (op_subdirName op) then
        (False,
         if local \<and> Map_get (pendingSubDirectories n) (op_subdirName op)
                      = Some (clientSequenceNumber message)
         then with_pendingSubDirectories
                (Map_delete (op_subdirName op) (pendingSubDirectories n)) n
         else n)
      else (\<not> local, n))"

definition processClearMessage ::
  "SubDirectory \<Rightarrow> SharedObjectState \<Rightarrow> IDirectoryOperation \<Rightarrow> ILocalValue option \<Rightarrow> bool \<Rightarrow>
   ISequencedDocumentMessage \<Rightarrow> error + (SubDirectory \<times> SharedObjectState)" where
  "processClearMessage n e op context local message =
     (if local then
        Inr (if pendingClearClientSequenceNumber n = clientSequenceNumber message
             then with_pendingClear (- 1) n else n, e)
      else Inr (clearExceptPendingKeys n, emit e (Clear local (Some op))))"

definition processDeleteMessage ::
  "SubDirectory \<Rightarrow> SharedObjectState \<Rightarrow> IDirectoryOperation \<Rightarrow> ILocalValue option \<Rightarrow> bool \<Rightarrow>
   ISequencedDocumentMessage \<Rightarrow> error + (SubDirectory \<times> SharedObjectState)" where
  "processDeleteMessage n e op context local message =
     (case needProcessStorageOperations n op local message of
        (need, n') \<Rightarrow>
          if \<not> need then Inr (n', e)
          else (case deleteCore n' e (op_key op) local (Some message) of
                  Inl err \<Rightarrow> Inl err
                | Inr (removed, n'', e') \<Rightarrow> Inr (n'', e')))"

definition processSetMessage ::
  "SubDirectory \<Rightarrow> SharedObjectState \<Rightarrow> IDirectoryOperation \<Rightarrow> ILocalValue option \<Rightarrow> bool \<Rightarrow>
   ISequencedDocumentMessage \<Rightarrow> error + (SubDirectory \<times> SharedObjectState)" where
  "processSetMessage n e op context local message =
     (case needProcessStorageOperations n op local message of
        (need, n') \<Rightarrow>
          if \<not> need then Inr (n', e)
          else setCore n' e (op_key op) context local (Some message))"

definition createSubDirectoryCore :: "SubDirectory \<Rightarrow> string \<Rightarrow> SubDirectory" where
  "createSubDirectoryCore n name =
     (if \<not> Map_has (subdirectories n) name
      then with_subdirectories
             (Map_set name (SubDirectory (posix_join [absolutePath n, name]) [] [] [] [] (- 1))
                (subdirectories n)) n
      else n)"

definition deleteSubDirectoryCore :: "SubDirectory \<Rightarrow> string \<Rightarrow> bool \<times> SubDirectory" where
  "deleteSubDirectoryCore n name =
     (Map_has (subdirectories n) name,
      with_subdirectories (Map_delete name (subdirectories n)) n)"

definition processCreateSubDirectoryMessage ::
  "SubDirectory \<Rightarrow> SharedObjectState \<Rightarrow> IDirectoryOperation \<Rightarrow> ILocalValue option \<Rightarrow> bool \<Rightarrow>
   ISequencedDocumentMessage \<Rightarrow> error + (SubDirectory \<times> SharedObjectState)" where
  "processCreateSubDirectoryMessage n e op context local message =
     (case needProcessSubDirectoryOperations n op local message of
        (need, n') \<Rightarrow>
          if \<not> need then Inr (n', e)
          else Inr (createSubDirectoryCore n' (op_subdirName op), e))"

definition processDeleteSubDirectoryMessage ::
  "SubDirectory \<Rightarrow> SharedObjectState \<Rightarrow> IDirectoryOperation \<Rightarrow> ILocalValue option \<Rightarrow> bool \<Rightarrow>
   ISequencedDocumentMessage \<Rightarrow> error + (SubDirectory \<times> SharedObjectState)" where
  "processDeleteSubDirectoryMessage n e op context local message =
     (case needProcessSubDirectoryOperations n op local message of
        (need, n') \<Rightarrow>
          if \<not> need then Inr (n', e)
          else Inr (snd (deleteSubDirectoryCore n' (op_subdirName op)), e))"

section \<open>SubDirectory: local operations\<close>

definition submitClearMessage ::
  "SubDirectory \<Rightarrow> SharedObjectState \<Rightarrow> IDirectoryOperation \<Rightarrow> SubDirectory \<times> SharedObjectState" where
  "submitClearMessage n e op =
     (case submitDirectoryMessage e op of
        (cs, e') \<Rightarrow> (if cs \<noteq> - 1 then with_pendingClear cs n else n, e'))"

definition submitKeyMessage ::
  "SubDirectory \<Rightarrow> SharedObjectState \<Rightarrow> IDirectoryOperation \<Rightarrow> SubDirectory \<times> SharedObjectState" where
  "submitKeyMessage n e op =
     (case submitDirectoryMessage e op of
        (cs, e') \<Rightarrow>
          (if cs \<noteq> - 1 then with_pendingKeys (Map_set (op_key op) cs (pendingKeys n)) n else n, e'))"

definition submitSubDirectoryMessage ::
  "SubDirectory \<Rightarrow> SharedObjectState \<Rightarrow> IDirectoryOperation \<Rightarrow> SubDirectory \<times> SharedObjectState" where
  "submitSubDirectoryMessage n e op =
     (case submitDirectoryMessage e op of
        (cs, e') \<Rightarrow>
          (if cs \<noteq> - 1
           then with_pendingSubDirectories
                  (Map_set (op_subdirName op) cs (pendingSubDirectories n)) n
           else n, e'))"

text \<open>
  \<open>set(key, value, type?)\<close>: a type that is given and is neither \<open>Plain\<close> nor
  \<open>Shared\<close> goes through the value-type maker, with \<open>{ type, value }\<close> as the
  serialized form; anything else goes through \<open>fromInMemory\<close> and \<open>makeSerializable\<close>.
\<close>

definition SubDirectory_set ::
  "LocalValueMaker \<Rightarrow> SubDirectory \<Rightarrow> SharedObjectState \<Rightarrow> string \<Rightarrow> string \<Rightarrow> string option \<Rightarrow>
   error + (SubDirectory \<times> SharedObjectState)" where
  "SubDirectory_set mk n e key v ty =
     (case (case ty of
              None \<Rightarrow>
                (let localValue = fromInMemory mk v
                 in Inr (localValue, makeSerializable mk localValue))
            | Some t \<Rightarrow>
                if t \<noteq> [] \<and> t \<noteq> ''Plain'' \<and> t \<noteq> ''Shared''
                then (case makeValueType mk t v of
                        Inl err \<Rightarrow> Inl err
                      | Inr localValue \<Rightarrow> Inr (localValue, \<lparr>sv_type = t, sv_value = v\<rparr>))
                else (let localValue = fromInMemory mk v
                      in Inr (localValue, makeSerializable mk localValue))) of
        Inl err \<Rightarrow> Inl err
      | Inr (localValue, serializableValue) \<Rightarrow>
          (case setCore n e key (Some localValue) True None of
             Inl err \<Rightarrow> Inl err
           | Inr (n', e') \<Rightarrow>
               Inr (submitKeyMessage n' e' (SetOp key (absolutePath n) serializableValue))))"

definition SubDirectory_delete ::
  "SubDirectory \<Rightarrow> SharedObjectState \<Rightarrow> string \<Rightarrow>
   error + (bool \<times> SubDirectory \<times> SharedObjectState)" where
  "SubDirectory_delete n e key =
     (case deleteCore n e key True None of
        Inl err \<Rightarrow> Inl err
      | Inr (successfullyRemoved, n', e') \<Rightarrow>
          (case submitKeyMessage n' e' (DeleteOp key (absolutePath n)) of
             (n'', e'') \<Rightarrow> Inr (successfullyRemoved, n'', e'')))"

definition SubDirectory_clear ::
  "SubDirectory \<Rightarrow> SharedObjectState \<Rightarrow> SubDirectory \<times> SharedObjectState" where
  "SubDirectory_clear n e =
     (case clearCore n e True of
        (n', e') \<Rightarrow> submitClearMessage n' e' (ClearOp (absolutePath n)))"

text \<open>
  \<open>createSubDirectory\<close> returns the outcome (the child, or the exception thrown) together
  with the node and the facade state after the call.
\<close>

definition createSubDirectory ::
  "SubDirectory \<Rightarrow> SharedObjectState \<Rightarrow> string \<Rightarrow>
   (error + SubDirectory option) \<times> SubDirectory \<times> SharedObjectState" where
  "createSubDirectory n e name =
     (if CHR ''/'' \<in> set name
      then (Inl (Error (''SubDirectory names may not contain '' @ posix_sep)), n, e)
      else (let n' = createSubDirectoryCore n name
            in case submitSubDirectoryMessage n' e (CreateSubDirectoryOp (absolutePath n) name) of
                 (n'', e') \<Rightarrow> (Inr (Map_get (subdirectories n'') name), n'', e')))"

definition deleteSubDirectory ::
  "SubDirectory \<Rightarrow> SharedObjectState \<Rightarrow> string \<Rightarrow> bool \<times> SubDirectory \<times> SharedObjectState" where
  "deleteSubDirectory n e name =
     (case deleteSubDirectoryCore n name of
        (successfullyRemoved, n') \<Rightarrow>
          (case submitSubDirectoryMessage n' e (DeleteSubDirectoryOp (absolutePath n) name) of
             (n'', e') \<Rightarrow> (successfullyRemoved, n'', e')))"

section \<open>SharedDirectory: path lookup and the message handlers\<close>

record SharedDirectory =
  root :: SubDirectory
  base :: SharedObjectState

definition SharedDirectory_makeAbsolute :: "string \<Rightarrow> string \<Rightarrow> string" where
  "SharedDirectory_makeAbsolute cwd path = posix_resolve cwd [posix_sep, path]"

text \<open>The loop of \<open>getWorkingDirectory\<close> over the components of the absolute path.\<close>

fun walk :: "SubDirectory \<Rightarrow> string list \<Rightarrow> SubDirectory option" where
  "walk currentSubDir [] = Some currentSubDir"
| "walk currentSubDir (subdir # subdirs) =
     (case getSubDirectory currentSubDir subdir of
        None \<Rightarrow> None
      | Some child \<Rightarrow> walk child subdirs)"

definition SharedDirectory_getWorkingDirectory ::
  "string \<Rightarrow> SharedDirectory \<Rightarrow> string \<Rightarrow> SubDirectory option" where
  "SharedDirectory_getWorkingDirectory cwd d path =
     (let absPath = SharedDirectory_makeAbsolute cwd path
      in if absPath = posix_sep then Some (root d)
         else walk (root d) (split_sep (drop 1 absPath)))"



text \<open>
  A handler changes the node object that \<open>getWorkingDirectory\<close> returned. In the tree
  model the changed node is written back at the path it was found under.
\<close>

fun replaceAt :: "SubDirectory \<Rightarrow> string list \<Rightarrow> SubDirectory \<Rightarrow> SubDirectory" where
  "replaceAt currentSubDir [] new = new"
| "replaceAt currentSubDir (subdir # subdirs) new =
     (case getSubDirectory currentSubDir subdir of
        None \<Rightarrow> currentSubDir
      | Some child \<Rightarrow>
          with_subdirectories
            (Map_set subdir (replaceAt child subdirs new) (subdirectories currentSubDir))
            currentSubDir)"

definition putWorkingDirectory ::
  "string \<Rightarrow> SharedDirectory \<Rightarrow> string \<Rightarrow> SubDirectory \<Rightarrow> SubDirectory" where
  "putWorkingDirectory cwd d path new =
     (let absPath = SharedDirectory_makeAbsolute cwd path
      in if absPath = posix_sep then new
         else replaceAt (root d) (split_sep (drop 1 absPath)) new)"

text \<open>
  \<open>const subdir = this.getWorkingDirectory(op.path); if (subdir) { subdir.f(...) }\<close>
\<close>

definition onWorkingDirectory ::
  "string \<Rightarrow> SharedDirectory \<Rightarrow> string \<Rightarrow>
   (SubDirectory \<Rightarrow> SharedObjectState \<Rightarrow> error + (SubDirectory \<times> SharedObjectState)) \<Rightarrow>
   error + SharedDirectory" where
  "onWorkingDirectory cwd d path f =
     (case SharedDirectory_getWorkingDirectory cwd d path of
        None \<Rightarrow> Inr d
      | Some subdir \<Rightarrow>
          (case f subdir (base d) of
             Inl err \<Rightarrow> Inl err
           | Inr (subdir', e') \<Rightarrow>
               Inr \<lparr>root = putWorkingDirectory cwd d path subdir', base = e'\<rparr>))"

text \<open>
  A message handler; \<open>prepare\<close> returns the context (\<open>Inl\<close> is a rejected promise),
  \<open>process\<close> the directory afterwards (\<open>Inl\<close> is an exception thrown out of it).
\<close>

record IDirectoryMessageHandler =
  prepare :: "SharedDirectory \<Rightarrow> IDirectoryOperation \<Rightarrow> bool \<Rightarrow> ISequencedDocumentMessage \<Rightarrow>
              error + ILocalValue option"
  process :: "SharedDirectory \<Rightarrow> IDirectoryOperation \<Rightarrow> ILocalValue option \<Rightarrow> bool \<Rightarrow>
              ISequencedDocumentMessage \<Rightarrow> error + SharedDirectory"

definition defaultPrepare ::
  "SharedDirectory \<Rightarrow> IDirectoryOperation \<Rightarrow> bool \<Rightarrow> ISequencedDocumentMessage \<Rightarrow>
   error + ILocalValue option" where
  "defaultPrepare d op local message = Inr None"

definition makeLocal ::
  "LocalValueMaker \<Rightarrow> string \<Rightarrow> string \<Rightarrow> ISerializableValue \<Rightarrow> error + ILocalValue" where
  "makeLocal mk key path serializable = fromSerializable mk serializable"

text \<open>
  The \<open>act\<close> handler: \<open>localValue\<close> is \<open>undefined\<close> when the path does not resolve or the
  key is not stored, and \<open>localValue.getOpHandler\<close> is then a TypeError; so is calling a
  handler that the value does not have.
\<close>

definition act_prepare ::
  "LocalValueMaker \<Rightarrow> string \<Rightarrow> SharedDirectory \<Rightarrow> IDirectoryOperation \<Rightarrow> bool \<Rightarrow>
   ISequencedDocumentMessage \<Rightarrow> error + ILocalValue option" where
  "act_prepare mk cwd d op local message =
     (let subdir = SharedDirectory_getWorkingDirectory cwd d (op_path op);
          localValue = (case subdir of Some sd \<Rightarrow> getLocalValue sd (op_key op) | None \<Rightarrow> None)
      in case localValue of
           None \<Rightarrow> Inl TypeError
         | Some lv \<Rightarrow>
             (case getOpHandler mk lv (opName (op_act op)) of
                None \<Rightarrow> Inl TypeError
              | Some handler \<Rightarrow>
                  vo_prepare handler (lv_value lv) (opParams (op_act op)) local message))"

definition act_process ::
  "LocalValueMaker \<Rightarrow> string \<Rightarrow> SharedDirectory \<Rightarrow> IDirectoryOperation \<Rightarrow>
   ILocalValue option \<Rightarrow> bool \<Rightarrow> ISequencedDocumentMessage \<Rightarrow> error + SharedDirectory" where
  "act_process mk cwd d op context local message =
     (case SharedDirectory_getWorkingDirectory cwd d (op_path op) of
        None \<Rightarrow> Inl TypeError
      | Some subdir \<Rightarrow>
          (case getLocalValue subdir (op_key op) of
             None \<Rightarrow> Inl TypeError
           | Some localValue \<Rightarrow>
               (case getOpHandler mk localValue (opName (op_act op)) of
                  None \<Rightarrow> Inl TypeError
                | Some handler \<Rightarrow>
                    (let previousValue = lv_value localValue
                     in case vo_process handler previousValue (opParams (op_act op))
                               context local message of
                          Inl err \<Rightarrow> Inl err
                        | Inr v' \<Rightarrow>
                            Inr \<lparr>root = putWorkingDirectory cwd d (op_path op)
                                          (with_storage
                                             (Map_set (op_key op)
                                                (Some (localValue\<lparr>lv_value := v'\<rparr>))
                                                (storage subdir))
                                             subdir),
                                 base = emit (base d)
                                          (ValueChanged
                                             \<lparr>ev_key = op_key op, ev_path = None,
                                                previousValue = Some previousValue\<rparr>
                                             local (Some message))\<rparr>))))"

definition messageHandlers ::
  "LocalValueMaker \<Rightarrow> string \<Rightarrow> IDirectoryMessageHandler JSMap" where
  "messageHandlers mk cwd =
     [(''clear'',
        \<lparr>prepare = defaultPrepare,
         process = (\<lambda>d op context local message.
           onWorkingDirectory cwd d (op_path op)
             (\<lambda>subdir e. processClearMessage subdir e op context local message))\<rparr>),
      (''delete'',
        \<lparr>prepare = defaultPrepare,
         process = (\<lambda>d op context local message.
           onWorkingDirectory cwd d (op_path op)
             (\<lambda>subdir e. processDeleteMessage subdir e op context local message))\<rparr>),
      (''set'',
        \<lparr>prepare = (\<lambda>d op local message.
           if local then Inr None
           else (case makeLocal mk (op_key op) (op_path op) (op_value op) of
                   Inl err \<Rightarrow> Inl err
                 | Inr lv \<Rightarrow> Inr (Some lv))),
         process = (\<lambda>d op context local message.
           onWorkingDirectory cwd d (op_path op)
             (\<lambda>subdir e. processSetMessage subdir e op context local message))\<rparr>),
      (''createSubDirectory'',
        \<lparr>prepare = defaultPrepare,
         process = (\<lambda>d op context local message.
           onWorkingDirectory cwd d (op_path op)
             (\<lambda>parentSubdir e.
                processCreateSubDirectoryMessage parentSubdir e op context local message))\<rparr>),
      (''deleteSubDirectory'',
        \<lparr>prepare = defaultPrepare,
         process = (\<lambda>d op context local message.
           onWorkingDirectory cwd d (op_path op)
             (\<lambda>parentSubdir e.
                processDeleteSubDirectoryMessage parentSubdir e op context local message))\<rparr>),
      (''act'',
        \<lparr>prepare = act_prepare mk cwd,
         process = act_process mk cwd\<rparr>)]"

definition MessageType_Operation :: string where
  "MessageType_Operation = ''op''"

definition prepareCore ::
  "LocalValueMaker \<Rightarrow> string \<Rightarrow> SharedDirectory \<Rightarrow> ISequencedDocumentMessage \<Rightarrow> bool \<Rightarrow>
   error + ILocalValue option" where
  "prepareCore mk cwd d message local =
     (if message_type message = MessageType_Operation
      then (let op = contents message
            in case Map_get (messageHandlers mk cwd) (op_type op) of
                 Some handler \<Rightarrow> prepare handler d op local message
               | None \<Rightarrow> Inl PromiseRejected)
      else Inl PromiseRejected)"

definition processCore ::
  "LocalValueMaker \<Rightarrow> string \<Rightarrow> SharedDirectory \<Rightarrow> ISequencedDocumentMessage \<Rightarrow> bool \<Rightarrow>
   ILocalValue option \<Rightarrow> error + SharedDirectory" where
  "processCore mk cwd d message local context =
     (if message_type message = MessageType_Operation
      then (let op = contents message
            in case Map_get (messageHandlers mk cwd) (op_type op) of
                 Some handler \<Rightarrow> process handler d op context local message
               | None \<Rightarrow> Inr d)
      else Inr d)"

section \<open>SharedMap: snapshot and load\<close>

text \<open>
  JSON values; an object is the list of its properties in insertion order.
  \<open>JSON.parse\<close> is a parameter of the model (\<open>None\<close> is a SyntaxError).
\<close>

datatype json =
    JNull
  | JBool bool
  | JNumber string
  | JString string
  | JArray "json list"
  | JObject "(string \<times> json) list"

text \<open>
  Modelled from the spec: an entry of the object that \<open>kernel.getSerializedStorage()\<close> of
  mapKernel.ts returns, \<open>{ type, value }\<close> with the value a JSON text or \<open>undefined\<close>;
  mapKernel.ts is not among the sources.
\<close>

record ISerializedValue =
  ser_type :: string
  ser_value :: "string option"

text \<open>
  Modelled from the spec: \<open>addBlobToTree\<close>, which is not among the sources, appends a blob
  entry with the given path whose contents is the JSON text of the object; the entry is
  kept as the JSON value that text denotes (a property whose value is \<open>undefined\<close> is
  absent from it).
\<close>

record ITreeEntry =
  te_path :: string
  te_contents :: json

definition addBlobToTree :: "ITreeEntry list \<Rightarrow> string \<Rightarrow> json \<Rightarrow> ITreeEntry list" where
  "addBlobToTree tree blobName content = tree @ [\<lparr>te_path = blobName, te_contents = content\<rparr>]"

definition snapshotFileName :: string where
  "snapshotFileName = ''header''"

definition MinValueSizeSeparateSnapshotBlob :: nat where
  "MinValueSizeSeparateSnapshotBlob = 8 * 1024"

definition MaxSnapshotBlobSize :: nat where
  "MaxSnapshotBlobSize = 16 * 1024"

text \<open>The decimal numeral of \<open>counter\<close> in the template \<open>blob${counter}\<close>.\<close>

fun decimal :: "nat \<Rightarrow> string" where
  "decimal n =
     (if n < 10 then [char_of (48 + n)]
      else decimal (n div 10) @ [char_of (48 + n mod 10)])"

declare decimal.simps [simp del]

definition blobName_of :: "nat \<Rightarrow> string" where
  "blobName_of counter = ''blob'' @ decimal counter"

text \<open>\<open>{ type: value.type, value: parsed }\<close> as it is written to a blob.\<close>

definition serializable_json :: "string \<Rightarrow> json option \<Rightarrow> json" where
  "serializable_json t parsed =
     JObject ((''type'', JString t) #
              (case parsed of None \<Rightarrow> [] | Some j \<Rightarrow> [(''value'', j)]))"

record SnapshotState =
  currentSize :: nat
  counter :: nat
  headerBlob :: "json JSMap"
  blobs :: "string list"
  tree :: "ITreeEntry list"

text \<open>
  \<open>headerBlob[key] = ...\<close> on an object that began as \<open>{}\<close>: the key becomes an own
  property, kept in insertion order, except for the key \<open>__proto__\<close>, whose assignment goes
  to the prototype accessor and stores no own property, so that the JSON text of the
  object does not hold it. The list keeps the properties in insertion order, which is the
  order of JavaScript for keys that are not array indices; the statements below look at
  the order only in the literal trees of the examples, whose keys are not array indices.
\<close>

definition setProperty :: "string \<Rightarrow> json \<Rightarrow> json JSMap \<Rightarrow> json JSMap" where
  "setProperty key v obj = (if key = ''__proto__'' then obj else Map_set key v obj)"

text \<open>The \<open>else\<close> branch of the loop body: the entry joins the rolling header blob.\<close>

definition snapshot_small ::
  "(string \<Rightarrow> json option) \<Rightarrow> SnapshotState \<Rightarrow> string \<Rightarrow> ISerializedValue \<Rightarrow>
   error + SnapshotState" where
  "snapshot_small JSON_parse st key value =
     (let currentSize1 =
            currentSize st + (length (ser_type value) + 21)
            + (case ser_value value of
                 None \<Rightarrow> 0
               | Some v \<Rightarrow> if v \<noteq> [] then length v else 0);
          st1 = (if currentSize1 > MaxSnapshotBlobSize
                 then st\<lparr>currentSize := 0,
                         counter := counter st + 1,
                         headerBlob := [],
                         blobs := blobs st @ [blobName_of (counter st)],
                         tree := addBlobToTree (tree st) (blobName_of (counter st))
                                   (JObject (headerBlob st))\<rparr>
                 else st\<lparr>currentSize := currentSize1\<rparr>)
      in case (case ser_value value of
                 None \<Rightarrow> Inr None
               | Some v \<Rightarrow>
                   (case JSON_parse v of
                      None \<Rightarrow> Inl SyntaxError
                    | Some parsed \<Rightarrow> Inr (Some parsed))) of
           Inl err \<Rightarrow> Inl err
         | Inr parsed \<Rightarrow>
             Inr (st1\<lparr>headerBlob :=
                        setProperty key (serializable_json (ser_type value) parsed)
                          (headerBlob st1)\<rparr>))"

text \<open>
  The loop body. \<open>value.value && value.value.length >= MinValueSizeSeparateSnapshotBlob\<close>
  holds for a non-empty text of at least that length.
\<close>

definition snapshot_step ::
  "(string \<Rightarrow> json option) \<Rightarrow> SnapshotState \<Rightarrow> string \<Rightarrow> ISerializedValue \<Rightarrow>
   error + SnapshotState" where
  "snapshot_step JSON_parse st key value =
     (case ser_value value of
        None \<Rightarrow> snapshot_small JSON_parse st key value
      | Some v \<Rightarrow>
          if v \<noteq> [] \<and> MinValueSizeSeparateSnapshotBlob \<le> length v
          then (case JSON_parse v of
                  None \<Rightarrow> Inl SyntaxError
                | Some parsed \<Rightarrow>
                    Inr (st\<lparr>counter := counter st + 1,
                             blobs := blobs st @ [blobName_of (counter st)],
                             tree := addBlobToTree (tree st) (blobName_of (counter st))
                                       (JObject [(key, serializable_json (ser_type value)
                                                         (Some parsed))])\<rparr>))
          else snapshot_small JSON_parse st key value)"

text \<open>
  \<open>for (const key of Object.keys(data)) { const value = data[key]; ... }\<close> over the
  properties of \<open>data\<close>, given as the list of its entries.
\<close>

fun snapshot_loop ::
  "(string \<Rightarrow> json option) \<Rightarrow> (string \<times> ISerializedValue) list \<Rightarrow> SnapshotState \<Rightarrow>
   error + SnapshotState" where
  "snapshot_loop JSON_parse [] st = Inr st"
| "snapshot_loop JSON_parse ((key, value) # rest) st =
     (case snapshot_step JSON_parse st key value of
        Inl err \<Rightarrow> Inl err
      | Inr st' \<Rightarrow> snapshot_loop JSON_parse rest st')"

definition snapshot_init :: SnapshotState where
  "snapshot_init = \<lparr>currentSize = 0, counter = 0, headerBlob = [], blobs = [], tree = []\<rparr>"

definition snapshot ::
  "(string \<Rightarrow> json option) \<Rightarrow> (string \<times> ISerializedValue) list \<Rightarrow> error + ITreeEntry list" where
  "snapshot JSON_parse data =
     (case snapshot_loop JSON_parse data snapshot_init of
        Inl err \<Rightarrow> Inl err
      | Inr st \<Rightarrow>
          Inr (addBlobToTree (tree st) snapshotFileName
                 (JObject [(''blobs'', JArray (map JString (blobs st))),
                           (''content'', JObject (headerBlob st))])))"

text \<open>
  Modelled from the spec: \<open>populateFromSerializable\<close> of mapKernel.ts, which is not among
  the sources, sets every key of the data object in the kernel's map; the value stored
  is the serializable \<open>{ type, value }\<close> itself, its materialisation left out.
\<close>

definition populateFromSerializable :: "json \<Rightarrow> json JSMap \<Rightarrow> error + json JSMap" where
  "populateFromSerializable j kdata =
     (case j of
        JObject entries \<Rightarrow>
          Inr (foldl (\<lambda>m (key, serializable). Map_set key serializable m) kdata entries)
      | _ \<Rightarrow> Inl TypeError)"

text \<open>
  Blob storage: \<open>read(name)\<close> yields the JSON value of the blob's text, \<open>None\<close> where the
  read fails. \<open>readTree\<close> reads what a snapshot wrote.
\<close>

type_synonym IObjectStorageService = "string \<Rightarrow> json option"

definition readTree :: "ITreeEntry list \<Rightarrow> IObjectStorageService" where
  "readTree entries name = map_of (map (\<lambda>entry. (te_path entry, te_contents entry)) entries) name"

fun blobNames :: "json list \<Rightarrow> string list option" where
  "blobNames [] = Some []"
| "blobNames (JString name # rest) =
     (case blobNames rest of None \<Rightarrow> None | Some names \<Rightarrow> Some (name # names))"
| "blobNames (other # rest) = None"

fun loadBlobs ::
  "IObjectStorageService \<Rightarrow> string list \<Rightarrow> json JSMap \<Rightarrow> error + json JSMap" where
  "loadBlobs service [] kdata = Inr kdata"
| "loadBlobs service (name # names) kdata =
     (case service name of
        None \<Rightarrow> Inl PromiseRejected
      | Some blobData \<Rightarrow>
          (case populateFromSerializable blobData kdata of
             Inl err \<Rightarrow> Inl err
           | Inr kdata' \<Rightarrow> loadBlobs service names kdata'))"

text \<open>
  \<open>loadCore\<close>. The reads of the listed blobs run concurrently and each populates the
  kernel when it completes; \<open>completion\<close> gives the order in which they complete.
\<close>

definition loadCore ::
  "(string list \<Rightarrow> string list) \<Rightarrow> IObjectStorageService \<Rightarrow> json JSMap \<Rightarrow>
   error + json JSMap" where
  "loadCore completion service kdata =
     (case service snapshotFileName of
        None \<Rightarrow> Inl PromiseRejected
      | Some header \<Rightarrow>
          (case header of
             JNull \<Rightarrow> Inl TypeError
           | JObject props \<Rightarrow>
               (case Map_get props ''blobs'' of
                  Some (JArray listed) \<Rightarrow>
                    (case Map_get props ''content'' of
                       None \<Rightarrow> Inl TypeError
                     | Some content \<Rightarrow>
                         (case populateFromSerializable content kdata of
                            Inl err \<Rightarrow> Inl err
                          | Inr kdata' \<Rightarrow>
                              (case blobNames listed of
                                 None \<Rightarrow> Inl PromiseRejected
                               | Some names \<Rightarrow> loadBlobs service (completion names) kdata')))
                | _ \<Rightarrow> populateFromSerializable header kdata)
           | _ \<Rightarrow> populateFromSerializable header kdata))"

text \<open>
  The measures used in the statements: the cost of an entry in the size estimate (type length + 21
  + value length), and whether it goes to a blob of its own; the value an entry is
  serialized with, \<open>{ type, value }\<close> with the value parsed; what a blob
  of a written tree holds for the loader (the \<open>content\<close> of the header, the whole object of
  any other blob); and the invariants of the loop: the blob names are \<open>blob0\<close>,
  \<open>blob1\<close>, ... in the order written, and the entries written so far are those of the
  properties processed, each key once.
\<close>

definition entry_cost :: "ISerializedValue \<Rightarrow> nat" where
  "entry_cost value =
     length (ser_type value) + 21 + (case ser_value value of None \<Rightarrow> 0 | Some v \<Rightarrow> length v)"

definition is_large :: "ISerializedValue \<Rightarrow> bool" where
  "is_large value =
     (case ser_value value of
        None \<Rightarrow> False
      | Some v \<Rightarrow> MinValueSizeSeparateSnapshotBlob \<le> length v)"

definition parsed_entry :: "(string \<Rightarrow> json option) \<Rightarrow> ISerializedValue \<Rightarrow> json" where
  "parsed_entry JSON_parse value =
     (case ser_value value of
        None \<Rightarrow> JObject [(''type'', JString (ser_type value))]
      | Some v \<Rightarrow>
          (case JSON_parse v of
             None \<Rightarrow> JObject [(''type'', JString (ser_type value))]
           | Some parsed \<Rightarrow>
               JObject [(''type'', JString (ser_type value)), (''value'', parsed)]))"

definition names_ok :: "SnapshotState \<Rightarrow> bool" where
  "names_ok st = (blobs st = map blobName_of [0..<counter st]
                  \<and> map te_path (tree st) = blobs st)"

definition digits_value :: "string \<Rightarrow> nat" where
  "digits_value s = foldl (\<lambda>a c. 10 * a + (of_char c - 48)) 0 s"

fun data_entries :: "json \<Rightarrow> (string \<times> json) list" where
  "data_entries (JObject es) = es"
| "data_entries other = []"

definition blob_data :: "ITreeEntry \<Rightarrow> (string \<times> json) list" where
  "blob_data entry =
     (if te_path entry = snapshotFileName
      then (case te_contents entry of
              JObject props \<Rightarrow>
                (case Map_get props ''content'' of Some c \<Rightarrow> data_entries c | None \<Rightarrow> [])
            | _ \<Rightarrow> [])
      else data_entries (te_contents entry))"

definition written :: "SnapshotState \<Rightarrow> (string \<times> json) list" where
  "written st = concat (map (\<lambda>e. data_entries (te_contents e)) (tree st)) @ headerBlob st"

definition content_ok ::
  "(string \<Rightarrow> json option) \<Rightarrow> (string \<times> ISerializedValue) list \<Rightarrow> SnapshotState \<Rightarrow> bool" where
  "content_ok P processed st =
     (list_all (\<lambda>e. case te_contents e of JObject es \<Rightarrow> True | _ \<Rightarrow> False) (tree st)
      \<and> set (written st) = set (map (\<lambda>(k, v). (k, parsed_entry P v)) processed)
      \<and> distinct (map fst (written st)))"

definition entries_at :: "IObjectStorageService \<Rightarrow> string \<Rightarrow> (string \<times> json) list" where
  "entries_at service name = (case service name of Some j \<Rightarrow> data_entries j | None \<Rightarrow> [])"

section \<open>The pending entries of a node\<close>

text \<open>
  The three places where a node records an unacknowledged local operation: an entry of
  \<open>pendingKeys\<close>, an entry of \<open>pendingSubDirectories\<close>, and the marker
  \<open>pendingClearClientSequenceNumber\<close>. \<open>slotOf\<close> is the place an operation is recorded
  in by \<open>submitKeyMessage\<close>, \<open>submitSubDirectoryMessage\<close> and \<open>submitClearMessage\<close>;
  \<open>act\<close> operations are submitted by the value's emitter and recorded nowhere.
  \<open>processOperation\<close> is what the handler registered for the operation's type runs on the
  node the path resolves to, and \<open>localCall\<close> is a call of one of the five mutating methods.
  \<open>entryCount\<close> counts the entries a slot holds, and \<open>pendingBounded\<close> says that the maps
  have one entry per key and that no recorded number exceeds the facade's last one.
\<close>

datatype PendingSlot = KeySlot string | SubDirectorySlot string | ClearSlot

fun pendingEntry :: "SubDirectory \<Rightarrow> PendingSlot \<Rightarrow> int option" where
  "pendingEntry n (KeySlot k) = Map_get (pendingKeys n) k"
| "pendingEntry n (SubDirectorySlot name) = Map_get (pendingSubDirectories n) name"
| "pendingEntry n ClearSlot =
     (if pendingClearClientSequenceNumber n = - 1 then None
      else Some (pendingClearClientSequenceNumber n))"

fun entryCount :: "SubDirectory \<Rightarrow> PendingSlot \<Rightarrow> nat" where
  "entryCount n (KeySlot k) = length (filter (\<lambda>p. fst p = k) (pendingKeys n))"
| "entryCount n (SubDirectorySlot name) =
     length (filter (\<lambda>p. fst p = name) (pendingSubDirectories n))"
| "entryCount n ClearSlot = (if pendingClearClientSequenceNumber n = - 1 then 0 else 1)"

fun slotOf :: "IDirectoryOperation \<Rightarrow> PendingSlot option" where
  "slotOf (SetOp k p v) = Some (KeySlot k)"
| "slotOf (DeleteOp k p) = Some (KeySlot k)"
| "slotOf (ClearOp p) = Some ClearSlot"
| "slotOf (CreateSubDirectoryOp p name) = Some (SubDirectorySlot name)"
| "slotOf (DeleteSubDirectoryOp p name) = Some (SubDirectorySlot name)"
| "slotOf (ActOp k p v) = None"
| "slotOf (OtherOp t p) = None"

fun processOperation ::
  "SubDirectory \<Rightarrow> SharedObjectState \<Rightarrow> IDirectoryOperation \<Rightarrow> ILocalValue option \<Rightarrow> bool \<Rightarrow>
   ISequencedDocumentMessage \<Rightarrow> error + (SubDirectory \<times> SharedObjectState)" where
  "processOperation n e (SetOp k p v) context local message =
     processSetMessage n e (SetOp k p v) context local message"
| "processOperation n e (DeleteOp k p) context local message =
     processDeleteMessage n e (DeleteOp k p) context local message"
| "processOperation n e (ClearOp p) context local message =
     processClearMessage n e (ClearOp p) context local message"
| "processOperation n e (CreateSubDirectoryOp p name) context local message =
     processCreateSubDirectoryMessage n e (CreateSubDirectoryOp p name) context local message"
| "processOperation n e (DeleteSubDirectoryOp p name) context local message =
     processDeleteSubDirectoryMessage n e (DeleteSubDirectoryOp p name) context local message"
| "processOperation n e (ActOp k p v) context local message = Inr (n, e)"
| "processOperation n e (OtherOp t p) context local message = Inr (n, e)"

datatype LocalCall =
    CallSet string string "string option"
  | CallDelete string
  | CallClear
  | CallCreateSubDirectory string
  | CallDeleteSubDirectory string

fun localCall ::
  "LocalValueMaker \<Rightarrow> SubDirectory \<Rightarrow> SharedObjectState \<Rightarrow> LocalCall \<Rightarrow>
   error + (SubDirectory \<times> SharedObjectState)" where
  "localCall mk n e (CallSet k v ty) = SubDirectory_set mk n e k v ty"
| "localCall mk n e (CallDelete k) =
     (case SubDirectory_delete n e k of
        Inl err \<Rightarrow> Inl err
      | Inr (removed, n', e') \<Rightarrow> Inr (n', e'))"
| "localCall mk n e CallClear = Inr (SubDirectory_clear n e)"
| "localCall mk n e (CallCreateSubDirectory name) =
     (case createSubDirectory n e name of
        (Inl err, n', e') \<Rightarrow> Inl err
      | (Inr child, n', e') \<Rightarrow> Inr (n', e'))"
| "localCall mk n e (CallDeleteSubDirectory name) =
     (case deleteSubDirectory n e name of (removed, n', e') \<Rightarrow> Inr (n', e'))"

fun slotOfCall :: "LocalCall \<Rightarrow> PendingSlot" where
  "slotOfCall (CallSet k v ty) = KeySlot k"
| "slotOfCall (CallDelete k) = KeySlot k"
| "slotOfCall CallClear = ClearSlot"
| "slotOfCall (CallCreateSubDirectory name) = SubDirectorySlot name"
| "slotOfCall (CallDeleteSubDirectory name) = SubDirectorySlot name"

definition pendingBounded :: "SubDirectory \<Rightarrow> SharedObjectState \<Rightarrow> bool" where
  "pendingBounded n e =
     (0 \<le> clientSeq e
      \<and> list_all (\<lambda>p. snd p \<le> clientSeq e) (pendingKeys n)
      \<and> list_all (\<lambda>p. snd p \<le> clientSeq e) (pendingSubDirectories n)
      \<and> pendingClearClientSequenceNumber n \<le> clientSeq e
      \<and> distinct (map fst (pendingKeys n))
      \<and> distinct (map fst (pendingSubDirectories n)))"

section \<open>Concrete states used in the examples\<close>

definition fresh_root :: SubDirectory where
  "fresh_root = SubDirectory ''/'' [] [] [] [] (- 1)"

definition attached_state :: SharedObjectState where
  "attached_state =
     \<lparr>attached = True, clientSeq = 0, submitted = [], pendingUnsubmitted = [], emitted = []\<rparr>"

definition plain_maker :: LocalValueMaker where
  "plain_maker =
     \<lparr>makeValueType = (\<lambda>t v. Inr \<lparr>lv_value = v, lv_type = t\<rparr>),
      fromInMemory = (\<lambda>v. \<lparr>lv_value = v, lv_type = ''Plain''\<rparr>),
      makeSerializable = (\<lambda>lv. \<lparr>sv_type = lv_type lv, sv_value = lv_value lv\<rparr>),
      fromSerializable = (\<lambda>s. Inr \<lparr>lv_value = sv_value s, lv_type = sv_type s\<rparr>),
      getOpHandler = (\<lambda>lv name. None)\<rparr>"

definition sequenced ::
  "int \<Rightarrow> string \<Rightarrow> IDirectoryOperation \<Rightarrow> ISequencedDocumentMessage" where
  "sequenced cs client op =
     \<lparr>clientSequenceNumber = cs, referenceSequenceNumber = 0, sequenceNumber = 0,
      message_type = ''op'', clientId = client, contents = op\<rparr>"

definition plain :: "string \<Rightarrow> ISerializableValue" where
  "plain v = \<lparr>sv_type = ''Plain'', sv_value = v\<rparr>"

definition plain_local :: "string \<Rightarrow> ILocalValue" where
  "plain_local v = \<lparr>lv_value = v, lv_type = ''Plain''\<rparr>"

text \<open>
  Replica A, attached: \<open>set("a", 1)\<close> is assigned client-sequence-number 1, then
  \<open>clear()\<close> is assigned 2; then both echoes arrive.
\<close>

definition S2_after_set :: SubDirectory where
  "S2_after_set =
     SubDirectory ''/'' [(''a'', Some (plain_local ''1''))] [] [(''a'', 1)] [] (- 1)"

definition S2_state1 :: SharedObjectState where
  "S2_state1 =
     \<lparr>attached = True, clientSeq = 1, submitted = [SetOp ''a'' ''/'' (plain ''1'')],
      pendingUnsubmitted = [],
      emitted = [ValueChanged
                   \<lparr>ev_key = ''a'', ev_path = Some ''/'', previousValue = None\<rparr> True None]\<rparr>"

definition S2_after_clear :: SubDirectory where
  "S2_after_clear = SubDirectory ''/'' [] [] [(''a'', 1)] [] 2"

definition S2_state2 :: SharedObjectState where
  "S2_state2 =
     \<lparr>attached = True, clientSeq = 2,
      submitted = [SetOp ''a'' ''/'' (plain ''1''), ClearOp ''/''],
      pendingUnsubmitted = [],
      emitted = [ValueChanged
                   \<lparr>ev_key = ''a'', ev_path = Some ''/'', previousValue = None\<rparr> True None,
                 Clear True None]\<rparr>"

definition S2_after_echoes :: SubDirectory where
  "S2_after_echoes = SubDirectory ''/'' [] [] [(''a'', 1)] [] (- 1)"

text \<open>Replica A, attached: \<open>delete("k")\<close> on the empty root is assigned number 1.\<close>

definition D_after_delete :: SubDirectory where
  "D_after_delete = SubDirectory ''/'' [] [] [(''k'', 1)] [] (- 1)"

definition D_state1 :: SharedObjectState where
  "D_state1 =
     \<lparr>attached = True, clientSeq = 1, submitted = [DeleteOp ''k'' ''/''],
      pendingUnsubmitted = [], emitted = []\<rparr>"

definition D_after_remote_clear :: SubDirectory where
  "D_after_remote_clear = SubDirectory ''/'' [(''k'', None)] [] [(''k'', 1)] [] (- 1)"




text \<open>
  Replica A, attached: the echo of \<open>set("a", 1)\<close> arrives with nothing else pending;
  or a second \<open>set("a", 2)\<close> is assigned number 2 before the first echo arrives.
\<close>

definition S1_after_echo :: SubDirectory where
  "S1_after_echo = SubDirectory ''/'' [(''a'', Some (plain_local ''1''))] [] [] [] (- 1)"

definition T_after_second_set :: SubDirectory where
  "T_after_second_set =
     SubDirectory ''/'' [(''a'', Some (plain_local ''2''))] [] [(''a'', 2)] [] (- 1)"

definition T_state2 :: SharedObjectState where
  "T_state2 =
     \<lparr>attached = True, clientSeq = 2,
      submitted = [SetOp ''a'' ''/'' (plain ''1''), SetOp ''a'' ''/'' (plain ''2'')],
      pendingUnsubmitted = [],
      emitted = [ValueChanged
                   \<lparr>ev_key = ''a'', ev_path = Some ''/'', previousValue = None\<rparr> True None,
                 ValueChanged
                   \<lparr>ev_key = ''a'', ev_path = Some ''/'', previousValue = Some ''1''\<rparr> True None]\<rparr>"





definition E_directory :: SharedDirectory where
  "E_directory = \<lparr>root = fresh_root, base = attached_state\<rparr>"

text \<open>
  Snapshots, with a stand-in for \<open>JSON.parse\<close> that reads every non-empty text as a
  string: six entries of type \<open>Plain\<close> with 6000 characters each; and two short entries,
  the second under the key \<open>__proto__\<close>.
\<close>

definition parse_stub :: "string \<Rightarrow> json option" where
  "parse_stub s = (if s = [] then None else Some (JString s))"

definition text_entry :: "nat \<Rightarrow> ISerializedValue" where
  "text_entry n = \<lparr>ser_type = ''Plain'', ser_value = Some (replicate n (CHR ''1''))\<rparr>"

definition text_json :: "nat \<Rightarrow> json" where
  "text_json n = JObject [(''type'', JString ''Plain''),
                          (''value'', JString (replicate n (CHR ''1'')))]"

definition V_data :: "(string \<times> ISerializedValue) list" where
  "V_data = [(''a'', text_entry 6000), (''b'', text_entry 6000), (''c'', text_entry 6000),
             (''d'', text_entry 6000), (''e'', text_entry 6000), (''f'', text_entry 6000)]"

definition V_tree :: "ITreeEntry list" where
  "V_tree =
     [\<lparr>te_path = ''blob0'',
       te_contents = JObject [(''a'', text_json 6000), (''b'', text_json 6000)]\<rparr>,
      \<lparr>te_path = ''blob1'',
       te_contents = JObject [(''c'', text_json 6000), (''d'', text_json 6000),
                              (''e'', text_json 6000)]\<rparr>,
      \<lparr>te_path = ''header'',
       te_contents = JObject [(''blobs'', JArray [JString ''blob0'', JString ''blob1'']),
                              (''content'', JObject [(''f'', text_json 6000)])]\<rparr>]"

definition Q_data :: "(string \<times> ISerializedValue) list" where
  "Q_data = [(''k'', \<lparr>ser_type = ''Shared'', ser_value = Some ''7''\<rparr>),
             (''__proto__'', \<lparr>ser_type = ''Plain'', ser_value = Some ''1''\<rparr>)]"

definition Q_tree :: "ITreeEntry list" where
  "Q_tree =
     [\<lparr>te_path = ''header'',
       te_contents =
         JObject [(''blobs'', JArray []),
                  (''content'',
                   JObject [(''k'', JObject [(''type'', JString ''Shared''),
                                             (''value'', JString ''7'')])])]\<rparr>]"

section \<open>Basic facts\<close>

lemma sel_with_storage [simp]:
  "absolutePath (with_storage s n) = absolutePath n"
  "storage (with_storage s n) = s"
  "subdirectories (with_storage s n) = subdirectories n"
  "pendingKeys (with_storage s n) = pendingKeys n"
  "pendingSubDirectories (with_storage s n) = pendingSubDirectories n"
  "pendingClearClientSequenceNumber (with_storage s n) = pendingClearClientSequenceNumber n"
  by (simp_all add: with_storage_def)

lemma sel_with_subdirectories [simp]:
  "absolutePath (with_subdirectories s n) = absolutePath n"
  "storage (with_subdirectories s n) = storage n"
  "subdirectories (with_subdirectories s n) = s"
  "pendingKeys (with_subdirectories s n) = pendingKeys n"
  "pendingSubDirectories (with_subdirectories s n) = pendingSubDirectories n"
  "pendingClearClientSequenceNumber (with_subdirectories s n) = pendingClearClientSequenceNumber n"
  by (simp_all add: with_subdirectories_def)

lemma sel_with_pendingKeys [simp]:
  "absolutePath (with_pendingKeys s n) = absolutePath n"
  "storage (with_pendingKeys s n) = storage n"
  "subdirectories (with_pendingKeys s n) = subdirectories n"
  "pendingKeys (with_pendingKeys s n) = s"
  "pendingSubDirectories (with_pendingKeys s n) = pendingSubDirectories n"
  "pendingClearClientSequenceNumber (with_pendingKeys s n) = pendingClearClientSequenceNumber n"
  by (simp_all add: with_pendingKeys_def)

lemma sel_with_pendingSubDirectories [simp]:
  "absolutePath (with_pendingSubDirectories s n) = absolutePath n"
  "storage (with_pendingSubDirectories s n) = storage n"
  "subdirectories (with_pendingSubDirectories s n) = subdirectories n"
  "pendingKeys (with_pendingSubDirectories s n) = pendingKeys n"
  "pendingSubDirectories (with_pendingSubDirectories s n) = s"
  "pendingClearClientSequenceNumber (with_pendingSubDirectories s n)
     = pendingClearClientSequenceNumber n"
  by (simp_all add: with_pendingSubDirectories_def)

lemma sel_with_pendingClear [simp]:
  "absolutePath (with_pendingClear s n) = absolutePath n"
  "storage (with_pendingClear s n) = storage n"
  "subdirectories (with_pendingClear s n) = subdirectories n"
  "pendingKeys (with_pendingClear s n) = pendingKeys n"
  "pendingSubDirectories (with_pendingClear s n) = pendingSubDirectories n"
  "pendingClearClientSequenceNumber (with_pendingClear s n) = s"
  by (simp_all add: with_pendingClear_def)

lemma Map_has_set [simp]: "Map_has (Map_set k v m) k' = (k' = k \<or> Map_has m k')"
  by (simp add: Map_has_def Map_set_def update_conv' split: option.splits)

lemma Map_has_delete [simp]: "Map_has (Map_delete k m) k' = (k' \<noteq> k \<and> Map_has m k')"
  by (simp add: Map_has_def Map_delete_def delete_conv' split: option.splits)

lemma Map_get_set [simp]: "Map_get (Map_set k v m) k' = (if k' = k then Some v else Map_get m k')"
  by (simp add: Map_get_def Map_set_def update_conv')

lemma Map_get_delete [simp]:
  "Map_get (Map_delete k m) k' = (if k' = k then None else Map_get m k')"
  by (simp add: Map_get_def Map_delete_def delete_conv')

lemma Map_has_get: "Map_has m k = (Map_get m k \<noteq> None)"
  by (simp add: Map_has_def Map_get_def split: option.splits)

lemma Map_has_Nil [simp]: "\<not> Map_has [] k"
  by (simp add: Map_has_def)

lemma Map_get_Nil [simp]: "Map_get [] k = None"
  by (simp add: Map_get_def)

lemma Map_has_Cons [simp]: "Map_has ((a, b) # m) k = (k = a \<or> Map_has m k)"
  by (simp add: Map_has_def)

lemma Map_get_Cons [simp]: "Map_get ((a, b) # m) k = (if k = a then Some b else Map_get m k)"
  by (simp add: Map_get_def)

lemma Map_has_nonempty: "Map_has m k \<Longrightarrow> m \<noteq> []"
  by (auto simp: Map_has_def)

section \<open>A pending key shadows inbound key operations\<close>

text \<open>
  An inbound sequenced set or delete whose key is in the node's \<open>pendingKeys\<close>, local or
  remote, is not applied: the storage is the one before and the facade state is
  unchanged, so no event is emitted. If no local clear is outstanding, the message is
  local and the recorded client-sequence-number equals the message's, the entry of the
  key is removed from \<open>pendingKeys\<close>.
\<close>

lemma pending_key_shadows_inbound:
  assumes "Map_has (pendingKeys n) k"
  shows "\<exists>n'. processSetMessage n e (SetOp k p v) context local message = Inr (n', e)
           \<and> processDeleteMessage n e (DeleteOp k p) context local message = Inr (n', e)
           \<and> storage n' = storage n
           \<and> (pendingClearClientSequenceNumber n = - 1 \<and> local
                \<and> Map_get (pendingKeys n) k = Some (clientSequenceNumber message)
              \<longrightarrow> \<not> Map_has (pendingKeys n') k)"
  using assms
  by (auto simp: processSetMessage_def processDeleteMessage_def needProcessStorageOperations_def
      dest: Map_has_nonempty)

text \<open>
  C1, evaluated on an attached root after \<open>set("a", 1)\<close> (number 1) and \<open>clear()\<close>
  (number 2). The echo of the set is an inbound sequenced set whose key is in
  \<open>pendingKeys\<close>; it is local and carries the recorded number 1. The operation is not
  applied, and the node after it is the node before it: the entry of \<open>a\<close> is still in
  \<open>pendingKeys\<close>, with the number 1 of an operation that has been acknowledged.
\<close>

theorem C1_echo_under_pending_clear_keeps_entry:
  "SubDirectory_set plain_maker fresh_root attached_state ''a'' ''1'' None
     = Inr (S2_after_set, S2_state1)
   \<and> SubDirectory_clear S2_after_set S2_state1 = (S2_after_clear, S2_state2)
   \<and> Map_has (pendingKeys S2_after_clear) ''a''
   \<and> Map_get (pendingKeys S2_after_clear) ''a''
       = Some (clientSequenceNumber (sequenced 1 ''A'' (SetOp ''a'' ''/'' (plain ''1''))))
   \<and> processSetMessage S2_after_clear S2_state2 (SetOp ''a'' ''/'' (plain ''1'')) None True
        (sequenced 1 ''A'' (SetOp ''a'' ''/'' (plain ''1''))) = Inr (S2_after_clear, S2_state2)"
  by (simp add: SubDirectory_set_def plain_maker_def fresh_root_def attached_state_def setCore_def
      SubDirectory_get_def submitKeyMessage_def submitDirectoryMessage_def submitLocalMessage_def
      emit_def S2_after_set_def S2_state1_def plain_local_def plain_def with_storage_def
      with_pendingKeys_def Map_set_def SubDirectory_clear_def clearCore_def submitClearMessage_def
      with_pendingClear_def S2_after_clear_def S2_state2_def processSetMessage_def
      needProcessStorageOperations_def sequenced_def)

section \<open>A pending clear masks inbound key operations\<close>

lemma pending_clear_masks_key_operations:
  "pendingClearClientSequenceNumber n \<noteq> - 1 \<Longrightarrow>
     processSetMessage n e op context local message = Inr (n, e)
     \<and> processDeleteMessage n e op context local message = Inr (n, e)"
  by (simp add: processSetMessage_def processDeleteMessage_def needProcessStorageOperations_def)

lemma clear_echo_resets_marker:
  "pendingClearClientSequenceNumber n = clientSequenceNumber message \<Longrightarrow>
     processClearMessage n e op context True message = Inr (with_pendingClear (- 1) n, e)"
  by (simp add: processClearMessage_def)

text \<open>
  C2, evaluated on scenario S2 of the specification. After \<open>set("a", 1)\<close> (number 1) and
  \<open>clear()\<close> (number 2) the echo of the set is swallowed by the pending clear and leaves
  \<open>a \<mapsto> 1\<close> in \<open>pendingKeys\<close>; the echo of the clear resets the marker; the remote
  \<open>set("a", 3)\<close> that follows is still ignored and \<open>a\<close> stays absent.
\<close>

theorem C2_remote_set_after_clear_echo_is_ignored:
  "SubDirectory_set plain_maker fresh_root attached_state ''a'' ''1'' None
     = Inr (S2_after_set, S2_state1)
   \<and> SubDirectory_clear S2_after_set S2_state1 = (S2_after_clear, S2_state2)
   \<and> processSetMessage S2_after_clear S2_state2 (SetOp ''a'' ''/'' (plain ''1'')) None True
        (sequenced 1 ''A'' (SetOp ''a'' ''/'' (plain ''1''))) = Inr (S2_after_clear, S2_state2)
   \<and> processClearMessage S2_after_clear S2_state2 (ClearOp ''/'') None True
        (sequenced 2 ''A'' (ClearOp ''/'')) = Inr (S2_after_echoes, S2_state2)
   \<and> pendingClearClientSequenceNumber S2_after_echoes = - 1
   \<and> processSetMessage S2_after_echoes S2_state2 (SetOp ''a'' ''/'' (plain ''3''))
        (Some (plain_local ''3'')) False (sequenced 1 ''B'' (SetOp ''a'' ''/'' (plain ''3'')))
       = Inr (S2_after_echoes, S2_state2)
   \<and> SubDirectory_has S2_after_echoes ''a'' = False"
  by (simp add: SubDirectory_set_def plain_maker_def fresh_root_def attached_state_def setCore_def
      SubDirectory_get_def submitKeyMessage_def submitDirectoryMessage_def submitLocalMessage_def
      emit_def S2_after_set_def S2_state1_def plain_local_def plain_def with_storage_def
      with_pendingKeys_def Map_set_def SubDirectory_clear_def clearCore_def submitClearMessage_def
      S2_after_clear_def S2_state2_def S2_after_echoes_def processSetMessage_def
      needProcessStorageOperations_def sequenced_def processClearMessage_def with_pendingClear_def
      SubDirectory_has_def)

section \<open>Subdirectory creation\<close>

text \<open>
  C7. For every node and every name that contains the path separator,
  \<open>createSubDirectory\<close> throws the invalid-argument error, and the node (its children map
  and its storage with it) and the facade state (so the operations submitted) are the ones
  before the call.
\<close>

theorem C7_createSubDirectory_rejects_separator:
  "CHR ''/'' \<in> set name \<Longrightarrow>
     createSubDirectory n e name = (Inl (Error ''SubDirectory names may not contain /''), n, e)"
  by (simp add: createSubDirectory_def posix_sep_def)

theorem C7_createSubDirectory_rejects_separator_witness:
  "CHR ''/'' \<in> set ''x/y''
   \<and> createSubDirectory fresh_root attached_state ''x/y''
       = (Inl (Error ''SubDirectory names may not contain /''), fresh_root, attached_state)"
  using C7_createSubDirectory_rejects_separator [of "''x/y''" fresh_root attached_state]
  by simp



section \<open>A remote clear and the pending keys\<close>

lemma clearExceptPendingKeys_temp:
  "Map_get (foldl (\<lambda>t (key, cs). Map_set key (f key) t) acc ps) k
     = (if Map_has ps k then Some (f k) else Map_get acc k)"
  by (induction ps arbitrary: acc) auto

lemma clearExceptPendingKeys_refill:
  "distinct (map fst t) \<Longrightarrow>
     Map_get (foldl (\<lambda>s (key, v). Map_set key v s) acc t) k
       = (case Map_get t k of Some v \<Rightarrow> Some v | None \<Rightarrow> Map_get acc k)"
proof (induction t arbitrary: acc)
  case Nil
  then show ?case by simp
next
  case (Cons p t)
  obtain a b where p: "p = (a, b)" by (cases p)
  from Cons.prems p have "a \<notin> fst ` set t" by simp
  then have "Map_get t a = None"
    by (simp add: Map_get_def map_of_eq_None_iff)
  with Cons p show ?case by (simp split: option.splits)
qed

lemma clearExceptPendingKeys_temp_distinct:
  "distinct (map fst acc) \<Longrightarrow>
     distinct (map fst (foldl (\<lambda>t (key, cs). Map_set key (f key) t) acc ps))"
  by (induction ps arbitrary: acc) (auto simp: Map_set_def distinct_update)

lemma clearExceptPendingKeys_storage:
  "Map_get (storage (clearExceptPendingKeys n)) k
     = (if Map_has (pendingKeys n) k then Some (getLocalValue n k) else None)"
proof -
  let ?temp = "foldl (\<lambda>t (key, cs). Map_set key (getLocalValue n key) t) [] (pendingKeys n)"
  have "distinct (map fst ?temp)"
    by (rule clearExceptPendingKeys_temp_distinct) simp
  then show ?thesis
    by (simp add: clearExceptPendingKeys_def clearExceptPendingKeys_refill
        clearExceptPendingKeys_temp)
qed

text \<open>
  C10, evaluated where the pending operation on a key is a delete. After the local
  \<open>delete("k")\<close> (number 1) the key \<open>k\<close> is pending and not stored. The remote clear
  stores \<open>k\<close> with the value \<open>undefined\<close>: \<open>has("k")\<close> turns from false to true and
  \<open>get("k")\<close> is a TypeError.
\<close>

theorem C10_remote_clear_adds_undefined_entry:
  "SubDirectory_delete fresh_root attached_state ''k'' = Inr (False, D_after_delete, D_state1)
   \<and> SubDirectory_has D_after_delete ''k'' = False
   \<and> processClearMessage D_after_delete D_state1 (ClearOp ''/'') None False
        (sequenced 1 ''B'' (ClearOp ''/''))
       = Inr (D_after_remote_clear, emit D_state1 (Clear False (Some (ClearOp ''/''))))
   \<and> storage D_after_remote_clear = [(''k'', None)]
   \<and> SubDirectory_has D_after_remote_clear ''k'' = True
   \<and> SubDirectory_get D_after_remote_clear ''k'' = Inl TypeError"
  by (simp add: SubDirectory_delete_def deleteCore_def SubDirectory_get_def fresh_root_def
      attached_state_def D_after_delete_def D_state1_def submitKeyMessage_def
      submitDirectoryMessage_def submitLocalMessage_def Map_delete_def Map_set_def
      with_storage_def with_pendingKeys_def SubDirectory_has_def processClearMessage_def
      clearExceptPendingKeys_def getLocalValue_def D_after_remote_clear_def)

section \<open>Pending entries: recorded on submission, removed by the echo\<close>

lemma setCore_frame:
  "setCore n e k v l m = Inr (n', e') \<Longrightarrow>
     pendingKeys n' = pendingKeys n \<and> pendingSubDirectories n' = pendingSubDirectories n
     \<and> pendingClearClientSequenceNumber n' = pendingClearClientSequenceNumber n
     \<and> clientSeq e' = clientSeq e \<and> attached e' = attached e \<and> absolutePath n' = absolutePath n"
  by (auto simp: setCore_def emit_def split: sum.splits)

lemma deleteCore_frame:
  "deleteCore n e k l m = Inr (r, n', e') \<Longrightarrow>
     pendingKeys n' = pendingKeys n \<and> pendingSubDirectories n' = pendingSubDirectories n
     \<and> pendingClearClientSequenceNumber n' = pendingClearClientSequenceNumber n
     \<and> clientSeq e' = clientSeq e \<and> attached e' = attached e \<and> absolutePath n' = absolutePath n"
  by (auto simp: deleteCore_def emit_def Let_def split: sum.splits if_splits)

lemma clearExceptPendingKeys_frame [simp]:
  "pendingKeys (clearExceptPendingKeys n) = pendingKeys n"
  "pendingSubDirectories (clearExceptPendingKeys n) = pendingSubDirectories n"
  "pendingClearClientSequenceNumber (clearExceptPendingKeys n) = pendingClearClientSequenceNumber n"
  by (simp_all add: clearExceptPendingKeys_def Let_def)

lemma createSubDirectoryCore_frame [simp]:
  "pendingKeys (createSubDirectoryCore n name) = pendingKeys n"
  "pendingSubDirectories (createSubDirectoryCore n name) = pendingSubDirectories n"
  "pendingClearClientSequenceNumber (createSubDirectoryCore n name) = pendingClearClientSequenceNumber n"
  "absolutePath (createSubDirectoryCore n name) = absolutePath n"
  by (simp_all add: createSubDirectoryCore_def)

lemma deleteSubDirectoryCore_frame [simp]:
  "pendingKeys (snd (deleteSubDirectoryCore n name)) = pendingKeys n"
  "pendingSubDirectories (snd (deleteSubDirectoryCore n name)) = pendingSubDirectories n"
  "pendingClearClientSequenceNumber (snd (deleteSubDirectoryCore n name)) = pendingClearClientSequenceNumber n"
  by (simp_all add: deleteSubDirectoryCore_def)

lemma needStorage_cases:
  "needProcessStorageOperations n op local message = (need, n') \<Longrightarrow>
     pendingSubDirectories n' = pendingSubDirectories n
     \<and> pendingClearClientSequenceNumber n' = pendingClearClientSequenceNumber n
     \<and> (pendingKeys n' = pendingKeys n
        \<or> (pendingClearClientSequenceNumber n = - 1 \<and> local
            \<and> Map_get (pendingKeys n) (op_key op) = Some (clientSequenceNumber message)
            \<and> pendingKeys n' = Map_delete (op_key op) (pendingKeys n)))
     \<and> (pendingClearClientSequenceNumber n = - 1 \<and> local
          \<and> Map_get (pendingKeys n) (op_key op) = Some (clientSequenceNumber message)
        \<longrightarrow> pendingKeys n' = Map_delete (op_key op) (pendingKeys n))"
  by (auto simp: needProcessStorageOperations_def Map_has_get split: if_splits)

lemma needSubDir_cases:
  "needProcessSubDirectoryOperations n op local message = (need, n') \<Longrightarrow>
     pendingKeys n' = pendingKeys n
     \<and> pendingClearClientSequenceNumber n' = pendingClearClientSequenceNumber n
     \<and> (pendingSubDirectories n' = pendingSubDirectories n
        \<or> (local \<and> Map_get (pendingSubDirectories n) (op_subdirName op)
                      = Some (clientSequenceNumber message)
            \<and> pendingSubDirectories n' = Map_delete (op_subdirName op) (pendingSubDirectories n)))
     \<and> (local \<and> Map_get (pendingSubDirectories n) (op_subdirName op)
                      = Some (clientSequenceNumber message)
        \<longrightarrow> pendingSubDirectories n' = Map_delete (op_subdirName op) (pendingSubDirectories n))"
  by (auto simp: needProcessSubDirectoryOperations_def Map_has_get split: if_splits)


lemma processOperation_pending:
  assumes "processOperation m f op context local message = Inr (m', f')"
  shows "clientSeq f' = clientSeq f \<and> attached f' = attached f"
    and "pendingKeys m' = pendingKeys m
         \<or> (\<exists>k. slotOf op = Some (KeySlot k) \<and> pendingClearClientSequenceNumber m = - 1 \<and> local
                \<and> Map_get (pendingKeys m) k = Some (clientSequenceNumber message)
                \<and> pendingKeys m' = Map_delete k (pendingKeys m))"
    and "pendingSubDirectories m' = pendingSubDirectories m
         \<or> (\<exists>k. slotOf op = Some (SubDirectorySlot k) \<and> local
                \<and> Map_get (pendingSubDirectories m) k = Some (clientSequenceNumber message)
                \<and> pendingSubDirectories m' = Map_delete k (pendingSubDirectories m))"
    and "pendingClearClientSequenceNumber m' = pendingClearClientSequenceNumber m
         \<or> (slotOf op = Some ClearSlot \<and> local
             \<and> pendingClearClientSequenceNumber m = clientSequenceNumber message
             \<and> pendingClearClientSequenceNumber m' = - 1)"
proof -
  show "clientSeq f' = clientSeq f \<and> attached f' = attached f"
    using assms
    by (cases op)
       (auto simp: processSetMessage_def processDeleteMessage_def processClearMessage_def
          processCreateSubDirectoryMessage_def processDeleteSubDirectoryMessage_def emit_def
          split: prod.splits if_splits sum.splits dest: setCore_frame deleteCore_frame)
  show "pendingKeys m' = pendingKeys m
         \<or> (\<exists>k. slotOf op = Some (KeySlot k) \<and> pendingClearClientSequenceNumber m = - 1 \<and> local
                \<and> Map_get (pendingKeys m) k = Some (clientSequenceNumber message)
                \<and> pendingKeys m' = Map_delete k (pendingKeys m))"
    using assms
    by (cases op)
       (auto simp: processSetMessage_def processDeleteMessage_def processClearMessage_def
          processCreateSubDirectoryMessage_def processDeleteSubDirectoryMessage_def
          split: prod.splits if_splits sum.splits
          dest!: setCore_frame deleteCore_frame needStorage_cases needSubDir_cases)
  show "pendingSubDirectories m' = pendingSubDirectories m
         \<or> (\<exists>k. slotOf op = Some (SubDirectorySlot k) \<and> local
                \<and> Map_get (pendingSubDirectories m) k = Some (clientSequenceNumber message)
                \<and> pendingSubDirectories m' = Map_delete k (pendingSubDirectories m))"
    using assms
    by (cases op)
       (auto simp: processSetMessage_def processDeleteMessage_def processClearMessage_def
          processCreateSubDirectoryMessage_def processDeleteSubDirectoryMessage_def
          split: prod.splits if_splits sum.splits
          dest!: setCore_frame deleteCore_frame needStorage_cases needSubDir_cases)
  show "pendingClearClientSequenceNumber m' = pendingClearClientSequenceNumber m
         \<or> (slotOf op = Some ClearSlot \<and> local
             \<and> pendingClearClientSequenceNumber m = clientSequenceNumber message
             \<and> pendingClearClientSequenceNumber m' = - 1)"
    using assms
    by (cases op)
       (auto simp: processSetMessage_def processDeleteMessage_def processClearMessage_def
          processCreateSubDirectoryMessage_def processDeleteSubDirectoryMessage_def
          split: prod.splits if_splits sum.splits
          dest!: setCore_frame deleteCore_frame needStorage_cases needSubDir_cases)
qed

lemma processOperation_removes:
  assumes "processOperation m f op context local message = Inr (m', f')"
    and "local" and "slotOf op = Some s"
    and "pendingEntry m s = Some (clientSequenceNumber message)"
    and "(\<exists>k. s = KeySlot k) \<longrightarrow> pendingClearClientSequenceNumber m = - 1"
  shows "pendingEntry m' s = None"
  using assms
  by (cases op)
     (auto simp: processSetMessage_def processDeleteMessage_def processClearMessage_def
        processCreateSubDirectoryMessage_def processDeleteSubDirectoryMessage_def
        needProcessStorageOperations_def needProcessSubDirectoryOperations_def Map_has_get
        split: if_splits)

lemma processOperation_shrinks:
  assumes "processOperation m f op context local message = Inr (m', f')"
    and "pendingEntry m' s = Some c"
  shows "pendingEntry m s = Some c"
  using processOperation_pending [OF assms(1)] assms(2)
  by (cases s) (auto split: if_splits)

lemma processOperation_keeps:
  assumes "processOperation m f op context local message = Inr (m', f')"
    and "pendingEntry m s = Some c"
    and "\<not> (local \<and> slotOf op = Some s \<and> clientSequenceNumber message = c)"
  shows "pendingEntry m' s = Some c"
  using processOperation_pending [OF assms(1)] assms(2,3)
  by (cases s) (auto split: if_splits)


lemma list_all_Map_set:
  "list_all P m \<Longrightarrow> P (k, v) \<Longrightarrow> list_all P (Map_set k v m)"
  by (induction m) (auto simp: Map_set_def)

lemma list_all_Map_delete: "list_all P m \<Longrightarrow> list_all P (Map_delete k m)"
  by (induction m) (auto simp: Map_delete_def)

lemma list_all_mono_bound:
  "list_all (\<lambda>p. snd p \<le> (a::int)) m \<Longrightarrow> a \<le> b \<Longrightarrow> list_all (\<lambda>p. snd p \<le> b) m"
  by (induction m) auto

lemma distinct_Map_set: "distinct (map fst m) \<Longrightarrow> distinct (map fst (Map_set k v m))"
  by (simp add: Map_set_def distinct_update)

lemma distinct_Map_delete: "distinct (map fst m) \<Longrightarrow> distinct (map fst (Map_delete k m))"
  by (simp add: Map_delete_def distinct_delete)

lemma count_Map_set:
  "distinct (map fst m) \<Longrightarrow> length (filter (\<lambda>p. fst p = k) (Map_set k v m)) = 1"
proof (induction m)
  case Nil
  then show ?case by (simp add: Map_set_def)
next
  case (Cons p m)
  show ?case
  proof (cases "fst p = k")
    case True
    with Cons.prems have "k \<notin> fst ` set m" by auto
    then have "filter (\<lambda>p. fst p = k) m = []"
      by (auto simp: filter_empty_conv)
    with True show ?thesis by (simp add: Map_set_def)
  next
    case False
    with Cons show ?thesis by (simp add: Map_set_def)
  qed
qed

lemma submitKeyMessage_attached:
  "attached e \<Longrightarrow> 0 \<le> clientSeq e \<Longrightarrow>
     submitKeyMessage n e op =
       (with_pendingKeys (Map_set (op_key op) (clientSeq e + 1) (pendingKeys n)) n,
        e\<lparr>clientSeq := clientSeq e + 1, submitted := submitted e @ [op]\<rparr>)"
  by (simp add: submitKeyMessage_def submitDirectoryMessage_def submitLocalMessage_def)

lemma submitSubDirectoryMessage_attached:
  "attached e \<Longrightarrow> 0 \<le> clientSeq e \<Longrightarrow>
     submitSubDirectoryMessage n e op =
       (with_pendingSubDirectories
          (Map_set (op_subdirName op) (clientSeq e + 1) (pendingSubDirectories n)) n,
        e\<lparr>clientSeq := clientSeq e + 1, submitted := submitted e @ [op]\<rparr>)"
  by (simp add: submitSubDirectoryMessage_def submitDirectoryMessage_def submitLocalMessage_def)

lemma submitClearMessage_attached:
  "attached e \<Longrightarrow> 0 \<le> clientSeq e \<Longrightarrow>
     submitClearMessage n e op =
       (with_pendingClear (clientSeq e + 1) n,
        e\<lparr>clientSeq := clientSeq e + 1, submitted := submitted e @ [op]\<rparr>)"
  by (simp add: submitClearMessage_def submitDirectoryMessage_def submitLocalMessage_def)

lemma submit_unattached:
  "\<not> attached e \<Longrightarrow>
     submitKeyMessage n e op = (n, e\<lparr>pendingUnsubmitted := pendingUnsubmitted e @ [op]\<rparr>)
     \<and> submitSubDirectoryMessage n e op
         = (n, e\<lparr>pendingUnsubmitted := pendingUnsubmitted e @ [op]\<rparr>)
     \<and> submitClearMessage n e op = (n, e\<lparr>pendingUnsubmitted := pendingUnsubmitted e @ [op]\<rparr>)"
  by (simp add: submitKeyMessage_def submitSubDirectoryMessage_def submitClearMessage_def
      submitDirectoryMessage_def submitLocalMessage_def)

text \<open>What a local call does to the pending maps and to the facade's counter.\<close>

lemma localCall_effect:
  assumes "localCall mk n e call = Inr (n', e')"
  shows "attached e \<and> 0 \<le> clientSeq e \<longrightarrow>
           clientSeq e' = clientSeq e + 1
           \<and> (case slotOfCall call of
                KeySlot k \<Rightarrow>
                  pendingKeys n' = Map_set k (clientSeq e + 1) (pendingKeys n)
                  \<and> pendingSubDirectories n' = pendingSubDirectories n
                  \<and> pendingClearClientSequenceNumber n' = pendingClearClientSequenceNumber n
              | SubDirectorySlot k \<Rightarrow>
                  pendingKeys n' = pendingKeys n
                  \<and> pendingSubDirectories n' = Map_set k (clientSeq e + 1) (pendingSubDirectories n)
                  \<and> pendingClearClientSequenceNumber n' = pendingClearClientSequenceNumber n
              | ClearSlot \<Rightarrow>
                  pendingKeys n' = pendingKeys n
                  \<and> pendingSubDirectories n' = pendingSubDirectories n
                  \<and> pendingClearClientSequenceNumber n' = clientSeq e + 1)"
    and "\<not> attached e \<longrightarrow>
           clientSeq e' = clientSeq e \<and> pendingKeys n' = pendingKeys n
           \<and> pendingSubDirectories n' = pendingSubDirectories n
           \<and> pendingClearClientSequenceNumber n' = pendingClearClientSequenceNumber n"
proof -
  show "attached e \<and> 0 \<le> clientSeq e \<longrightarrow>
           clientSeq e' = clientSeq e + 1
           \<and> (case slotOfCall call of
                KeySlot k \<Rightarrow>
                  pendingKeys n' = Map_set k (clientSeq e + 1) (pendingKeys n)
                  \<and> pendingSubDirectories n' = pendingSubDirectories n
                  \<and> pendingClearClientSequenceNumber n' = pendingClearClientSequenceNumber n
              | SubDirectorySlot k \<Rightarrow>
                  pendingKeys n' = pendingKeys n
                  \<and> pendingSubDirectories n' = Map_set k (clientSeq e + 1) (pendingSubDirectories n)
                  \<and> pendingClearClientSequenceNumber n' = pendingClearClientSequenceNumber n
              | ClearSlot \<Rightarrow>
                  pendingKeys n' = pendingKeys n
                  \<and> pendingSubDirectories n' = pendingSubDirectories n
                  \<and> pendingClearClientSequenceNumber n' = clientSeq e + 1)"
    using assms
    by (cases call)
       (auto simp: SubDirectory_set_def SubDirectory_delete_def SubDirectory_clear_def
          createSubDirectory_def deleteSubDirectory_def clearCore_def emit_def Let_def
          submitKeyMessage_attached submitSubDirectoryMessage_attached submitClearMessage_attached
          deleteSubDirectoryCore_def
          split: sum.splits prod.splits option.splits if_splits
          dest!: setCore_frame deleteCore_frame)
  show "\<not> attached e \<longrightarrow>
           clientSeq e' = clientSeq e \<and> pendingKeys n' = pendingKeys n
           \<and> pendingSubDirectories n' = pendingSubDirectories n
           \<and> pendingClearClientSequenceNumber n' = pendingClearClientSequenceNumber n"
    using assms
    by (cases call)
       (auto simp: SubDirectory_set_def SubDirectory_delete_def SubDirectory_clear_def
          createSubDirectory_def deleteSubDirectory_def clearCore_def emit_def Let_def
          submit_unattached deleteSubDirectoryCore_def
          split: sum.splits prod.splits option.splits if_splits
          dest!: setCore_frame deleteCore_frame)
qed


lemma localCall_bounded:
  assumes "pendingBounded n e" and "localCall mk n e call = Inr (n', e')"
  shows "pendingBounded n' e'"
proof (cases "attached e")
  case True
  from assms(1) have nonneg: "0 \<le> clientSeq e" by (simp add: pendingBounded_def)
  from localCall_effect(1) [OF assms(2)] True nonneg
  have eff: "clientSeq e' = clientSeq e + 1"
    "case slotOfCall call of
                KeySlot k \<Rightarrow>
                  pendingKeys n' = Map_set k (clientSeq e + 1) (pendingKeys n)
                  \<and> pendingSubDirectories n' = pendingSubDirectories n
                  \<and> pendingClearClientSequenceNumber n' = pendingClearClientSequenceNumber n
              | SubDirectorySlot k \<Rightarrow>
                  pendingKeys n' = pendingKeys n
                  \<and> pendingSubDirectories n' = Map_set k (clientSeq e + 1) (pendingSubDirectories n)
                  \<and> pendingClearClientSequenceNumber n' = pendingClearClientSequenceNumber n
              | ClearSlot \<Rightarrow>
                  pendingKeys n' = pendingKeys n
                  \<and> pendingSubDirectories n' = pendingSubDirectories n
                  \<and> pendingClearClientSequenceNumber n' = clientSeq e + 1"
    by simp_all
  from assms(1) have
    k: "list_all (\<lambda>p. snd p \<le> clientSeq e + 1) (pendingKeys n)" and
    s: "list_all (\<lambda>p. snd p \<le> clientSeq e + 1) (pendingSubDirectories n)"
    by (auto simp: pendingBounded_def intro: list_all_mono_bound)
  show ?thesis
    using eff assms(1) k s
    by (cases "slotOfCall call")
       (auto simp: pendingBounded_def intro!: list_all_Map_set distinct_Map_set)
next
  case False
  with localCall_effect(2) [OF assms(2)] assms(1) show ?thesis
    by (simp add: pendingBounded_def)
qed

lemma processOperation_bounded:
  assumes "pendingBounded m f" and "processOperation m f op context local message = Inr (m', f')"
  shows "pendingBounded m' f'"
  using processOperation_pending [OF assms(2)] assms(1)
  by (auto simp: pendingBounded_def intro: list_all_Map_delete distinct_Map_delete)

lemma localCall_records:
  assumes "attached e" and "0 \<le> clientSeq e" and "localCall mk n e call = Inr (n', e')"
  shows "clientSeq e' = clientSeq e + 1"
    and "pendingEntry n' (slotOfCall call) = Some (clientSeq e')"
    and "s \<noteq> slotOfCall call \<Longrightarrow> pendingEntry n' s = pendingEntry n s"
    and "pendingBounded n e \<Longrightarrow> entryCount n' (slotOfCall call) = 1"
  using localCall_effect(1) [OF assms(3)] assms(1,2)
  by (cases "slotOfCall call"; cases s;
      auto simp: pendingBounded_def count_Map_set)+

text \<open>
  C3 (as amended). A local set, delete, createSubDirectory, deleteSubDirectory or clear
  that completes while the facade is attached is assigned the facade's next
  client-sequence-number and leaves exactly that number in its pending slot (the entry of
  its key in \<open>pendingKeys\<close>, of its name in \<open>pendingSubDirectories\<close>, or the clear marker),
  in place of whatever an earlier operation on the same key, name or node had recorded
  there; the slot holds one entry and every other slot is unchanged. Processing an inbound
  message adds no pending entry and changes none: an entry stays unless the message is
  local, is recorded in the same slot and carries the recorded number, and in that case
  the entry is removed, for a key operation provided no local clear is outstanding. No
  recorded number exceeds the facade's last assigned number, before and after every local
  call and every inbound message.
\<close>

theorem C3_pending_entries:
  "(attached e \<and> 0 \<le> clientSeq e \<and> localCall mk n e call = Inr (n', e') \<longrightarrow>
      clientSeq e' = clientSeq e + 1
      \<and> pendingEntry n' (slotOfCall call) = Some (clientSeq e')
      \<and> (\<forall>s. s \<noteq> slotOfCall call \<longrightarrow> pendingEntry n' s = pendingEntry n s)
      \<and> (pendingBounded n e \<longrightarrow> entryCount n' (slotOfCall call) = 1))
   \<and> (processOperation m f op context local message = Inr (m', f') \<longrightarrow>
        clientSeq f' = clientSeq f
        \<and> (\<forall>s c. pendingEntry m' s = Some c \<longrightarrow> pendingEntry m s = Some c)
        \<and> (\<forall>s c. pendingEntry m s = Some c
                  \<and> \<not> (local \<and> slotOf op = Some s \<and> clientSequenceNumber message = c)
               \<longrightarrow> pendingEntry m' s = Some c)
        \<and> (\<forall>s. local \<and> slotOf op = Some s
                \<and> pendingEntry m s = Some (clientSequenceNumber message)
                \<and> ((\<exists>k. s = KeySlot k) \<longrightarrow> pendingClearClientSequenceNumber m = - 1)
               \<longrightarrow> pendingEntry m' s = None))
   \<and> (pendingBounded n e \<and> localCall mk n e call = Inr (n', e') \<longrightarrow> pendingBounded n' e')
   \<and> (pendingBounded m f \<and> processOperation m f op context local message = Inr (m', f')
        \<longrightarrow> pendingBounded m' f')"
proof (intro conjI impI allI)
  assume a: "attached e \<and> 0 \<le> clientSeq e \<and> localCall mk n e call = Inr (n', e')"
  then show "clientSeq e' = clientSeq e + 1"
    and "pendingEntry n' (slotOfCall call) = Some (clientSeq e')"
    using localCall_records(1,2) by blast+
  fix s assume "s \<noteq> slotOfCall call"
  with a show "pendingEntry n' s = pendingEntry n s"
    using localCall_records(3) by blast
next
  assume "attached e \<and> 0 \<le> clientSeq e \<and> localCall mk n e call = Inr (n', e')"
    and "pendingBounded n e"
  then show "entryCount n' (slotOfCall call) = 1"
    using localCall_records(4) by blast
next
  assume "processOperation m f op context local message = Inr (m', f')"
  then show "clientSeq f' = clientSeq f"
    using processOperation_pending(1) by blast
next
  fix s c
  assume "processOperation m f op context local message = Inr (m', f')"
    and "pendingEntry m' s = Some c"
  then show "pendingEntry m s = Some c"
    by (rule processOperation_shrinks)
next
  fix s c
  assume "processOperation m f op context local message = Inr (m', f')"
    and "pendingEntry m s = Some c
          \<and> \<not> (local \<and> slotOf op = Some s \<and> clientSequenceNumber message = c)"
  then show "pendingEntry m' s = Some c"
    using processOperation_keeps by blast
next
  fix s
  assume p: "processOperation m f op context local message = Inr (m', f')"
    and h: "local \<and> slotOf op = Some s
            \<and> pendingEntry m s = Some (clientSequenceNumber message)
            \<and> ((\<exists>k. s = KeySlot k) \<longrightarrow> pendingClearClientSequenceNumber m = - 1)"
  then show "pendingEntry m' s = None"
    using processOperation_removes by blast
next
  assume "pendingBounded n e \<and> localCall mk n e call = Inr (n', e')"
  then show "pendingBounded n' e'"
    using localCall_bounded by blast
next
  assume "pendingBounded m f \<and> processOperation m f op context local message = Inr (m', f')"
  then show "pendingBounded m' f'"
    using processOperation_bounded by blast
qed

theorem C3_pending_entries_witness:
  "attached attached_state \<and> 0 \<le> clientSeq attached_state
   \<and> pendingBounded fresh_root attached_state
   \<and> localCall plain_maker fresh_root attached_state (CallSet ''a'' ''1'' None)
       = Inr (S2_after_set, S2_state1)
   \<and> clientSeq S2_state1 = clientSeq attached_state + 1
   \<and> pendingEntry S2_after_set (KeySlot ''a'') = Some (clientSeq S2_state1)
   \<and> entryCount S2_after_set (KeySlot ''a'') = 1
   \<and> pendingBounded S2_after_set S2_state1
   \<and> processOperation S2_after_set S2_state1 (SetOp ''a'' ''/'' (plain ''1'')) None True
        (sequenced 1 ''A'' (SetOp ''a'' ''/'' (plain ''1''))) = Inr (S1_after_echo, S2_state1)
   \<and> pendingEntry S1_after_echo (KeySlot ''a'') = None
   \<and> pendingBounded S1_after_echo S2_state1"
proof -
  have call: "localCall plain_maker fresh_root attached_state (CallSet ''a'' ''1'' None)
                = Inr (S2_after_set, S2_state1)"
    by (simp add: SubDirectory_set_def plain_maker_def fresh_root_def attached_state_def
        setCore_def SubDirectory_get_def submitKeyMessage_def submitDirectoryMessage_def
        submitLocalMessage_def emit_def S2_after_set_def S2_state1_def plain_local_def plain_def
        with_storage_def with_pendingKeys_def Map_set_def)
  have echo: "processOperation S2_after_set S2_state1 (SetOp ''a'' ''/'' (plain ''1'')) None True
        (sequenced 1 ''A'' (SetOp ''a'' ''/'' (plain ''1''))) = Inr (S1_after_echo, S2_state1)"
    by (simp add: processSetMessage_def needProcessStorageOperations_def S2_after_set_def
        S1_after_echo_def sequenced_def with_pendingKeys_def Map_delete_def)
  have pre: "attached attached_state \<and> 0 \<le> clientSeq attached_state
             \<and> pendingBounded fresh_root attached_state"
    by (simp add: attached_state_def fresh_root_def pendingBounded_def)
  have slot: "pendingEntry S2_after_set (KeySlot ''a'')
                = Some (clientSequenceNumber (sequenced 1 ''A'' (SetOp ''a'' ''/'' (plain ''1''))))"
    "pendingClearClientSequenceNumber S2_after_set = - 1"
    by (simp_all add: S2_after_set_def sequenced_def)
  from C3_pending_entries [of attached_state plain_maker fresh_root "CallSet ''a'' ''1'' None"
      S2_after_set S2_state1 S2_after_set S2_state1 "SetOp ''a'' ''/'' (plain ''1'')" None True
      "sequenced 1 ''A'' (SetOp ''a'' ''/'' (plain ''1''))" S1_after_echo S2_state1]
    call echo pre slot
  show ?thesis by auto
qed

text \<open>
  C3 as stated fails where two local operations share a slot: after
  \<open>set("a", 1)\<close> (number 1) and \<open>set("a", 2)\<close> (number 2) the entry of \<open>a\<close> holds 2, and
  when the echo of the first set arrives the entry is not removed.
\<close>

theorem C3_counterexample:
  "SubDirectory_set plain_maker fresh_root attached_state ''a'' ''1'' None
     = Inr (S2_after_set, S2_state1)
   \<and> SubDirectory_set plain_maker S2_after_set S2_state1 ''a'' ''2'' None
       = Inr (T_after_second_set, T_state2)
   \<and> processSetMessage T_after_second_set T_state2 (SetOp ''a'' ''/'' (plain ''1'')) None True
        (sequenced 1 ''A'' (SetOp ''a'' ''/'' (plain ''1''))) = Inr (T_after_second_set, T_state2)
   \<and> Map_get (pendingKeys T_after_second_set) ''a'' = Some 2"
  by (simp add: SubDirectory_set_def plain_maker_def fresh_root_def attached_state_def setCore_def
      SubDirectory_get_def submitKeyMessage_def submitDirectoryMessage_def submitLocalMessage_def
      emit_def S2_after_set_def S2_state1_def plain_local_def plain_def with_storage_def
      with_pendingKeys_def Map_set_def T_after_second_set_def T_state2_def processSetMessage_def
      needProcessStorageOperations_def sequenced_def)

section \<open>Path resolution\<close>

lemma split_sep_nonempty [simp]: "split_sep s \<noteq> []"
  by (induction s) (auto split: list.splits)

lemma split_sep_noslash: "CHR ''/'' \<notin> set a \<Longrightarrow> split_sep a = [a]"
  by (induction a) auto

lemma split_sep_append:
  "CHR ''/'' \<notin> set a \<Longrightarrow> split_sep (a @ CHR ''/'' # b) = a # split_sep b"
  by (induction a) auto



lemma split_join_plain:
  "segs \<noteq> [] \<Longrightarrow> \<forall>s \<in> set segs. CHR ''/'' \<notin> set s \<Longrightarrow>
     split_sep (join_sep segs) = segs"
proof (induction segs rule: join_sep.induct)
  case 1
  then show ?case by simp
next
  case (2 s)
  then show ?case by (simp add: split_sep_noslash)
next
  case (3 s t ts)
  then show ?case by (simp add: split_sep_append)
qed




lemma normalize_step_empty [simp]: "normalize_step a res [] = res"
  by (simp add: normalize_step_def)









section \<open>Messages that address nothing\<close>

lemma dangling_path_is_dropped:
  assumes "SharedDirectory_getWorkingDirectory cwd d (op_path (contents message)) = None"
    and "op_type (contents message)
           \<in> {''clear'', ''delete'', ''set'', ''createSubDirectory'', ''deleteSubDirectory''}"
  shows "processCore mk cwd d message local context = Inr d"
  using assms
  by (auto simp: processCore_def messageHandlers_def onWorkingDirectory_def Let_def)

lemma unknown_type_is_ignored:
  assumes "op_type (contents message)
             \<notin> {''clear'', ''delete'', ''set'', ''createSubDirectory'', ''deleteSubDirectory'',
                 ''act''}"
  shows "processCore mk cwd d message local context = Inr d"
    and "prepareCore mk cwd d message local = Inl PromiseRejected"
  using assms
  by (auto simp: processCore_def prepareCore_def messageHandlers_def Let_def)

text \<open>
  C6, evaluated on an \<open>act\<close> operation whose path does not resolve. On the directory with
  an empty root, \<open>/missing\<close> resolves to no node; processing the \<open>act\<close> message throws a
  TypeError (\<open>localValue\<close> is \<open>undefined\<close> and is dereferenced) and preparing it is a
  rejected promise, where a \<open>delete\<close> on the same path is dropped and leaves the directory
  as it is.
\<close>

theorem C6_act_on_missing_path_throws:
  "SharedDirectory_getWorkingDirectory ''/'' E_directory ''/missing'' = None
   \<and> processCore plain_maker ''/'' E_directory
        (sequenced 1 ''B'' (ActOp ''k'' ''/missing'' \<lparr>opName = ''increment'', opParams = ''1''\<rparr>))
        False None = Inl TypeError
   \<and> prepareCore plain_maker ''/'' E_directory
        (sequenced 1 ''B'' (ActOp ''k'' ''/missing'' \<lparr>opName = ''increment'', opParams = ''1''\<rparr>))
        False = Inl TypeError
   \<and> processCore plain_maker ''/'' E_directory
        (sequenced 1 ''B'' (DeleteOp ''k'' ''/missing'')) False None = Inr E_directory"
  by (simp add: processCore_def prepareCore_def messageHandlers_def sequenced_def
      MessageType_Operation_def act_process_def act_prepare_def onWorkingDirectory_def
      SharedDirectory_getWorkingDirectory_def SharedDirectory_makeAbsolute_def posix_resolve_def
      posix_sep_def isAbsolute_def normalizeString_def normalize_step_def E_directory_def
      fresh_root_def getSubDirectory_def)

section \<open>Snapshot: partition into blobs\<close>

lemma is_large_nonempty:
  "ser_value value = Some v \<Longrightarrow>
     (v \<noteq> [] \<and> MinValueSizeSeparateSnapshotBlob \<le> length v) = is_large value"
  by (auto simp: is_large_def MinValueSizeSeparateSnapshotBlob_def)

lemma snapshot_step_large:
  assumes "is_large value" and "snapshot_step JSON_parse st key value = Inr st'"
  shows "st' = st\<lparr>counter := counter st + 1,
                   blobs := blobs st @ [blobName_of (counter st)],
                   tree := tree st @ [\<lparr>te_path = blobName_of (counter st),
                                        te_contents = JObject [(key, parsed_entry JSON_parse value)]\<rparr>]\<rparr>"
  using assms
  by (auto simp: snapshot_step_def is_large_def parsed_entry_def serializable_json_def
      addBlobToTree_def MinValueSizeSeparateSnapshotBlob_def split: option.splits if_splits)

lemma snapshot_step_small:
  assumes "\<not> is_large value" and "snapshot_step JSON_parse st key value = Inr st'"
  shows "st' = (if currentSize st + entry_cost value > MaxSnapshotBlobSize
                then st\<lparr>currentSize := 0,
                        counter := counter st + 1,
                        headerBlob := setProperty key (parsed_entry JSON_parse value) [],
                        blobs := blobs st @ [blobName_of (counter st)],
                        tree := tree st @ [\<lparr>te_path = blobName_of (counter st),
                                             te_contents = JObject (headerBlob st)\<rparr>]\<rparr>
                else st\<lparr>currentSize := currentSize st + entry_cost value,
                        headerBlob := setProperty key (parsed_entry JSON_parse value)
                                        (headerBlob st)\<rparr>)"
  using assms
  by (auto simp: snapshot_step_def snapshot_small_def is_large_def parsed_entry_def
      serializable_json_def addBlobToTree_def entry_cost_def Let_def
      split: option.splits if_splits)

lemma snapshot_loop_append:
  "snapshot_loop P (xs @ ys) st =
     (case snapshot_loop P xs st of Inl err \<Rightarrow> Inl err | Inr st' \<Rightarrow> snapshot_loop P ys st')"
  by (induction xs arbitrary: st) (auto split: sum.splits)

lemma snapshot_loop_split:
  assumes "snapshot_loop P (pre @ (key, value) # post) st0 = Inr stf"
  shows "\<exists>st st'. snapshot_loop P pre st0 = Inr st \<and> snapshot_step P st key value = Inr st'
           \<and> snapshot_loop P post st' = Inr stf"
  using assms by (auto simp: snapshot_loop_append split: sum.splits)

lemma snapshot_step_tree:
  "snapshot_step P st key value = Inr st' \<Longrightarrow> \<exists>added. tree st' = tree st @ added"
  by (cases "is_large value") (auto dest: snapshot_step_large snapshot_step_small split: if_splits)

lemma snapshot_loop_tree:
  "snapshot_loop P xs st = Inr st' \<Longrightarrow> \<exists>added. tree st' = tree st @ added"
proof (induction xs arbitrary: st)
  case Nil
  then show ?case by simp
next
  case (Cons x xs)
  obtain key val where x: "x = (key, val)" by (cases x)
  from Cons.prems x obtain st1 where
    s: "snapshot_step P st key val = Inr st1" and l: "snapshot_loop P xs st1 = Inr st'"
    by (auto split: sum.splits)
  from snapshot_step_tree [OF s] Cons.IH [OF l] show ?case by auto
qed

lemma snapshot_step_names:
  "names_ok st \<Longrightarrow> snapshot_step P st key value = Inr st' \<Longrightarrow> names_ok st'"
  by (cases "is_large value")
     (auto simp: names_ok_def dest!: snapshot_step_large snapshot_step_small split: if_splits)

lemma snapshot_loop_names:
  "names_ok st \<Longrightarrow> snapshot_loop P xs st = Inr st' \<Longrightarrow> names_ok st'"
proof (induction xs arbitrary: st)
  case Nil
  then show ?case by simp
next
  case (Cons x xs)
  obtain key val where x: "x = (key, val)" by (cases x)
  from Cons.prems x obtain st1 where
    s: "snapshot_step P st key val = Inr st1" and l: "snapshot_loop P xs st1 = Inr st'"
    by (auto split: sum.splits)
  from snapshot_step_names [OF Cons.prems(1) s] Cons.IH l show ?case by blast
qed

lemma names_ok_init: "names_ok snapshot_init"
  by (simp add: names_ok_def snapshot_init_def)

lemma counter_is_length:
  "names_ok st \<Longrightarrow> counter st = length (tree st)"
proof -
  assume "names_ok st"
  then have "length (map te_path (tree st)) = length (map blobName_of [0..<counter st])"
    by (simp add: names_ok_def)
  then show ?thesis by simp
qed

text \<open>
  What the loop does with every entry, at the state it has reached before the entry, and
  what the tree holds at the end. The running estimate \<open>currentSize\<close> restarts at 0 on a
  flush: the entry that opens a fresh header blob is not counted in it.
\<close>

lemma snapshot_partition:
  assumes "snapshot JSON_parse data = Inr t"
  shows "(\<exists>stf. snapshot_loop JSON_parse data snapshot_init = Inr stf
            \<and> map te_path (tree stf) = map blobName_of [0..<counter stf]
            \<and> t = tree stf
                  @ [\<lparr>te_path = snapshotFileName,
                      te_contents =
                        JObject [(''blobs'', JArray (map JString (map blobName_of
                                                                     [0..<counter stf]))),
                                 (''content'', JObject (headerBlob stf))]\<rparr>])
         \<and> (\<forall>pre key val post. data = pre @ (key, val) # post \<longrightarrow>
              (\<exists>st st' rest.
                  snapshot_loop JSON_parse pre snapshot_init = Inr st
                  \<and> snapshot_step JSON_parse st key val = Inr st'
                  \<and> t = tree st' @ rest
                  \<and> counter st = length (tree st)
                  \<and> (if is_large val then
                        tree st' = tree st @ [\<lparr>te_path = blobName_of (counter st),
                                                 te_contents = JObject [(key, parsed_entry JSON_parse val)]\<rparr>]
                        \<and> headerBlob st' = headerBlob st \<and> currentSize st' = currentSize st
                      else if currentSize st + entry_cost val > MaxSnapshotBlobSize then
                        tree st' = tree st @ [\<lparr>te_path = blobName_of (counter st),
                                                 te_contents = JObject (headerBlob st)\<rparr>]
                        \<and> headerBlob st' = setProperty key (parsed_entry JSON_parse val) []
                        \<and> currentSize st' = 0
                      else
                        tree st' = tree st
                        \<and> headerBlob st'
                            = setProperty key (parsed_entry JSON_parse val) (headerBlob st)
                        \<and> currentSize st' = currentSize st + entry_cost val)))"
proof -
  from assms obtain stf where
    loop: "snapshot_loop JSON_parse data snapshot_init = Inr stf" and
    t: "t = tree stf @ [\<lparr>te_path = snapshotFileName,
                          te_contents = JObject [(''blobs'', JArray (map JString (blobs stf))),
                                                 (''content'', JObject (headerBlob stf))]\<rparr>]"
    by (auto simp: snapshot_def addBlobToTree_def split: sum.splits)
  have final: "names_ok stf"
    using names_ok_init loop by (rule snapshot_loop_names)
  have first: "\<exists>stf. snapshot_loop JSON_parse data snapshot_init = Inr stf
            \<and> map te_path (tree stf) = map blobName_of [0..<counter stf]
            \<and> t = tree stf
                  @ [\<lparr>te_path = snapshotFileName,
                      te_contents =
                        JObject [(''blobs'', JArray (map JString (map blobName_of
                                                                     [0..<counter stf]))),
                                 (''content'', JObject (headerBlob stf))]\<rparr>]"
    using final t loop by (auto simp: names_ok_def)
  have second: "\<exists>st st' rest.
                  snapshot_loop JSON_parse pre snapshot_init = Inr st
                  \<and> snapshot_step JSON_parse st key val = Inr st'
                  \<and> t = tree st' @ rest
                  \<and> counter st = length (tree st)
                  \<and> (if is_large val then
                        tree st' = tree st @ [\<lparr>te_path = blobName_of (counter st),
                                                 te_contents = JObject [(key, parsed_entry JSON_parse val)]\<rparr>]
                        \<and> headerBlob st' = headerBlob st \<and> currentSize st' = currentSize st
                      else if currentSize st + entry_cost val > MaxSnapshotBlobSize then
                        tree st' = tree st @ [\<lparr>te_path = blobName_of (counter st),
                                                 te_contents = JObject (headerBlob st)\<rparr>]
                        \<and> headerBlob st' = setProperty key (parsed_entry JSON_parse val) []
                        \<and> currentSize st' = 0
                      else
                        tree st' = tree st
                        \<and> headerBlob st'
                            = setProperty key (parsed_entry JSON_parse val) (headerBlob st)
                        \<and> currentSize st' = currentSize st + entry_cost val)"
    if split: "data = pre @ (key, val) # post" for pre key val post
  proof -
    from loop split obtain st st' where
      pre: "snapshot_loop JSON_parse pre snapshot_init = Inr st" and
      step: "snapshot_step JSON_parse st key val = Inr st'" and
      post: "snapshot_loop JSON_parse post st' = Inr stf"
      using snapshot_loop_split by blast
    from snapshot_loop_tree [OF post] t obtain rest where rest: "t = tree st' @ rest"
      by auto
    have "names_ok st"
      using names_ok_init pre by (rule snapshot_loop_names)
    then have count: "counter st = length (tree st)"
      by (rule counter_is_length)
    show ?thesis
    proof (cases "is_large val")
      case True
      from snapshot_step_large [OF True step] pre step rest count True show ?thesis
        by auto
    next
      case False
      from snapshot_step_small [OF False step] pre step rest count False show ?thesis
        by (auto split: if_splits)
    qed
  qed
  from first second show ?thesis by blast
qed

lemma decimal_0: "decimal 0 = ''0''" by code_simp

lemma decimal_1: "decimal (Suc 0) = ''1''" by code_simp

lemma V_snapshot: "snapshot parse_stub V_data = Inr V_tree"
  by (simp add: snapshot_def V_data_def V_tree_def snapshot_step_def snapshot_small_def
      snapshot_init_def text_entry_def text_json_def parse_stub_def addBlobToTree_def
      serializable_json_def blobName_of_def decimal_0 decimal_1 setProperty_def Map_set_def
      MinValueSizeSeparateSnapshotBlob_def MaxSnapshotBlobSize_def snapshotFileName_def)

text \<open>
  C4, evaluated on six entries of type \<open>Plain\<close> with 6000 characters each, none of them
  large, each of cost 5 + 21 + 6000 = 6026 in the size estimate. The snapshot writes
  \<open>a\<close> and \<open>b\<close> to \<open>blob0\<close>, then \<open>c\<close>, \<open>d\<close> and \<open>e\<close> to \<open>blob1\<close>, and leaves \<open>f\<close> in the
  header: \<open>e\<close> is added to the rolling blob that holds \<open>c\<close> and \<open>d\<close> without a flush,
  although the estimate of the three entries is 18078 and exceeds 16384.
\<close>

theorem C4_rolling_blob_exceeds_estimate:
  "snapshot parse_stub V_data = Inr V_tree
   \<and> is_large (text_entry 6000) = False
   \<and> entry_cost (text_entry 6000) = 6026
   \<and> te_path (V_tree ! 1) = ''blob1''
   \<and> te_contents (V_tree ! 1)
       = JObject [(''c'', text_json 6000), (''d'', text_json 6000), (''e'', text_json 6000)]
   \<and> MaxSnapshotBlobSize
       < entry_cost (text_entry 6000) + entry_cost (text_entry 6000)
         + entry_cost (text_entry 6000)"
  by (simp add: V_snapshot)
     (simp add: V_tree_def is_large_def entry_cost_def text_entry_def
        MinValueSizeSeparateSnapshotBlob_def MaxSnapshotBlobSize_def)

section \<open>Snapshot and load: round trip\<close>

lemma digits_value_decimal: "digits_value (decimal n) = n"
proof (induction n rule: decimal.induct)
  case (1 n)
  show ?case
  proof (cases "n < 10")
    case True
    then show ?thesis
      by (subst decimal.simps) (simp add: digits_value_def)
  next
    case False
    with 1 have ih: "digits_value (decimal (n div 10)) = n div 10" by simp
    have "n mod 10 < 10" by simp
    then have "of_char (char_of (48 + n mod 10) :: char) = 48 + n mod 10"
      by (simp add: of_char_of)
    with ih False show ?thesis
      by (subst decimal.simps) (simp add: digits_value_def)
  qed
qed

lemma decimal_inj: "decimal m = decimal n \<Longrightarrow> m = n"
  by (metis digits_value_decimal)

lemma blobName_of_inj: "blobName_of m = blobName_of n \<Longrightarrow> m = n"
  by (simp add: blobName_of_def decimal_inj)

lemma blobName_of_not_header: "blobName_of n \<noteq> snapshotFileName"
  by (simp add: blobName_of_def snapshotFileName_def)

lemma update_fresh: "k \<notin> fst ` set m \<Longrightarrow> Map_set k v m = m @ [(k, v)]"
  by (induction m) (auto simp: Map_set_def)

lemma content_ok_step:
  assumes ok: "content_ok P pre st" and fresh: "key \<notin> fst ` set pre"
    and own: "key \<noteq> ''__proto__''"
    and step: "snapshot_step P st key val = Inr st'"
  shows "content_ok P (pre @ [(key, val)]) st'"
proof -
  let ?blobs = "concat (map (\<lambda>e. data_entries (te_contents e)) (tree st))"
  let ?e = "parsed_entry P val"
  from ok have objs: "list_all (\<lambda>e. case te_contents e of JObject es \<Rightarrow> True | _ \<Rightarrow> False) (tree st)"
    and sets: "set (written st) = set (map (\<lambda>(k, v). (k, parsed_entry P v)) pre)"
    and dist: "distinct (map fst (written st))"
    by (simp_all add: content_ok_def)
  have "fst ` set (written st) = fst ` set pre"
    unfolding sets by force
  with fresh have nk: "key \<notin> fst ` set (written st)" by simp
  then have nb: "key \<notin> fst ` set ?blobs" and nh: "key \<notin> fst ` set (headerBlob st)"
    by (auto simp: written_def)
  have target: "set (map (\<lambda>(k, v). (k, parsed_entry P v)) (pre @ [(key, val)]))
                  = insert (key, ?e) (set (written st))"
    unfolding sets by simp
  have w: "set (written st') = insert (key, ?e) (set (written st))
           \<and> distinct (map fst (written st'))
           \<and> list_all (\<lambda>e. case te_contents e of JObject es \<Rightarrow> True | _ \<Rightarrow> False) (tree st')"
  proof (cases "is_large val")
    case True
    have st': "written st' = ?blobs @ [(key, ?e)] @ headerBlob st"
      "tree st' = tree st @ [\<lparr>te_path = blobName_of (counter st),
                                te_contents = JObject [(key, ?e)]\<rparr>]"
      using snapshot_step_large [OF True step] by (simp_all add: written_def)
    from dist have d: "distinct (map fst ?blobs)" "distinct (map fst (headerBlob st))"
      "fst ` set ?blobs \<inter> fst ` set (headerBlob st) = {}"
      by (simp_all add: written_def)
    have "distinct (map fst (written st'))"
      unfolding st' using d nb nh by auto
    moreover have "set (written st') = insert (key, ?e) (set (written st))"
      unfolding st' by (auto simp: written_def)
    ultimately show ?thesis using objs st'(2) by simp
  next
    case False
    have sp: "setProperty key v m = Map_set key v m" for v m
      using own by (simp add: setProperty_def)
    note small = snapshot_step_small [OF False step, unfolded sp]
    show ?thesis
    proof (cases "currentSize st + entry_cost val > MaxSnapshotBlobSize")
      case True
      with small have st': "written st' = (?blobs @ headerBlob st) @ [(key, ?e)]"
        "tree st' = tree st @ [\<lparr>te_path = blobName_of (counter st),
                                  te_contents = JObject (headerBlob st)\<rparr>]"
        by (simp_all add: written_def Map_set_def)
      have "written st' = written st @ [(key, ?e)]"
        unfolding st' by (simp add: written_def)
      then show ?thesis using dist nk objs st'(2) by auto
    next
      case False
      with small update_fresh [OF nh]
      have st': "written st' = written st @ [(key, ?e)]" "tree st' = tree st"
        by (simp_all add: written_def)
      then show ?thesis using dist nk objs by auto
    qed
  qed
  show ?thesis
    unfolding content_ok_def target using w by blast
qed

lemma content_ok_loop:
  "content_ok P pre st \<Longrightarrow> distinct (map fst (pre @ xs)) \<Longrightarrow>
     snapshot_loop P xs st = Inr st' \<Longrightarrow> ''__proto__'' \<notin> fst ` set xs \<Longrightarrow>
     content_ok P (pre @ xs) st'"
proof (induction xs arbitrary: pre st)
  case Nil
  then show ?case by simp
next
  case (Cons x xs)
  obtain key val where x: "x = (key, val)" by (cases x)
  from Cons.prems x obtain st1 where
    s: "snapshot_step P st key val = Inr st1" and l: "snapshot_loop P xs st1 = Inr st'"
    by (auto split: sum.splits)
  from Cons.prems(2) x have fresh: "key \<notin> fst ` set pre" by auto
  from Cons.prems(4) x have own: "key \<noteq> ''__proto__''" and
    rest: "''__proto__'' \<notin> fst ` set xs" by auto
  have ok1: "content_ok P (pre @ [(key, val)]) st1"
    using Cons.prems(1) fresh own s by (rule content_ok_step)
  from Cons.prems(2) x have "distinct (map fst ((pre @ [(key, val)]) @ xs))" by simp
  from Cons.IH [OF ok1 this l rest] x show ?case by simp
qed

lemma content_ok_init: "content_ok P [] snapshot_init"
  by (simp add: content_ok_def written_def snapshot_init_def)

lemma populate_get:
  "Map_get (foldl (\<lambda>m (key, s). Map_set key s m) m es) k = Some e \<Longrightarrow>
     (k, e) \<in> set es \<or> Map_get m k = Some e"
proof (induction es rule: rev_induct)
  case Nil
  then show ?case by simp
next
  case (snoc x es)
  obtain a b where x: "x = (a, b)" by (cases x)
  show ?case
  proof (cases "k = a")
    case True
    with snoc.prems x show ?thesis by simp
  next
    case False
    with snoc x show ?thesis by auto
  qed
qed

lemma populate_has:
  "k \<in> fst ` set es \<Longrightarrow> \<exists>e. Map_get (foldl (\<lambda>m (key, s). Map_set key s m) m es) k = Some e"
proof (induction es arbitrary: m rule: rev_induct)
  case Nil
  then show ?case by simp
next
  case (snoc x es)
  obtain a b where x: "x = (a, b)" by (cases x)
  show ?case
  proof (cases "k = a")
    case True
    with x show ?thesis by simp
  next
    case False
    with snoc x show ?thesis by auto
  qed
qed

lemma populate_none:
  "k \<notin> fst ` set es \<Longrightarrow>
     Map_get (foldl (\<lambda>m (key, s). Map_set key s m) m es) k = Map_get m k"
  by (induction es arbitrary: m) auto

lemma loadBlobs_fold:
  assumes "\<forall>name \<in> set ns. \<exists>es. service name = Some (JObject es)"
  shows "loadBlobs service ns k
           = Inr (foldl (\<lambda>m (key, s). Map_set key s m) k (concat (map (entries_at service) ns)))"
  using assms
proof (induction ns arbitrary: k)
  case Nil
  then show ?case by simp
next
  case (Cons name ns)
  from Cons.prems obtain es where es: "service name = Some (JObject es)" by auto
  from Cons.prems have rest: "\<forall>name \<in> set ns. \<exists>es. service name = Some (JObject es)" by simp
  show ?case
    by (simp add: es populateFromSerializable_def entries_at_def Cons.IH [OF rest])
qed

lemma blobNames_strings: "blobNames (map JString names) = Some names"
  by (induction names) auto

lemma readTree_append:
  "readTree (xs @ ys) name = (case readTree xs name of Some j \<Rightarrow> Some j | None \<Rightarrow> readTree ys name)"
  by (simp add: readTree_def map_add_def split: option.splits)

lemma readTree_absent: "name \<notin> te_path ` set xs \<Longrightarrow> readTree xs name = None"
  by (simp add: readTree_def map_of_eq_None_iff image_image)

lemma readTree_present:
  "distinct (map te_path xs) \<Longrightarrow> e \<in> set xs \<Longrightarrow> readTree xs (te_path e) = Some (te_contents e)"
proof -
  assume d: "distinct (map te_path xs)" and e: "e \<in> set xs"
  have "distinct (map fst (map (\<lambda>entry. (te_path entry, te_contents entry)) xs))"
    using d by (simp add: comp_def)
  moreover have "(te_path e, te_contents e) \<in> set (map (\<lambda>entry. (te_path entry, te_contents entry)) xs)"
    using e by auto
  ultimately show ?thesis
    unfolding readTree_def by (rule map_of_is_SomeI)
qed

lemma names_distinct: "names_ok st \<Longrightarrow> distinct (map te_path (tree st))"
proof -
  assume "names_ok st"
  then have "map te_path (tree st) = map blobName_of [0..<counter st]"
    by (simp add: names_ok_def)
  moreover have "distinct (map blobName_of [0..<counter st])"
    by (auto simp: distinct_map inj_on_def dest: blobName_of_inj)
  ultimately show ?thesis by simp
qed

lemma names_not_header: "names_ok st \<Longrightarrow> snapshotFileName \<notin> te_path ` set (tree st)"
proof
  assume ok: "names_ok st" and "snapshotFileName \<in> te_path ` set (tree st)"
  then have "snapshotFileName \<in> set (map te_path (tree st))" by simp
  with ok have "snapshotFileName \<in> set (map blobName_of [0..<counter st])"
    by (simp add: names_ok_def)
  then obtain n where "snapshotFileName = blobName_of n" by auto
  then show False using blobName_of_not_header [of n] by simp
qed

text \<open>Loading what the loop wrote, whatever the order in which the reads complete.\<close>

lemma load_written:
  assumes names: "names_ok st" and ok: "content_ok P processed st"
    and perm: "set (completion (blobs st)) = set (blobs st)"
  shows "\<exists>kd. loadCore completion
                 (readTree (addBlobToTree (tree st) snapshotFileName
                    (JObject [(''blobs'', JArray (map JString (blobs st))),
                              (''content'', JObject (headerBlob st))]))) []
               = Inr kd
             \<and> (\<forall>k e. (Map_get kd k = Some e) = ((k, e) \<in> set (written st)))"
proof -
  let ?header = "JObject [(''blobs'', JArray (map JString (blobs st))),
                          (''content'', JObject (headerBlob st))]"
  let ?t = "addBlobToTree (tree st) snapshotFileName ?header"
  let ?service = "readTree ?t"
  let ?set = "\<lambda>m (key, s). Map_set key s m"
  have t: "?t = tree st @ [\<lparr>te_path = snapshotFileName, te_contents = ?header\<rparr>]"
    by (simp add: addBlobToTree_def)
  have head: "?service snapshotFileName = Some ?header"
    unfolding t readTree_append
    using readTree_absent [OF names_not_header [OF names]]
    by (simp add: readTree_def)
  have blob: "?service (te_path e) = Some (te_contents e)" if "e \<in> set (tree st)" for e
    unfolding t readTree_append
    using readTree_present [OF names_distinct [OF names] that] by simp
  have paths: "set (blobs st) = te_path ` set (tree st)"
    using names by (metis names_ok_def set_map)
  have objs: "\<forall>e \<in> set (tree st). \<exists>es. te_contents e = JObject es"
  proof
    fix e assume "e \<in> set (tree st)"
    with ok have "case te_contents e of JObject es \<Rightarrow> True | _ \<Rightarrow> False"
      by (simp add: content_ok_def list_all_iff)
    then show "\<exists>es. te_contents e = JObject es"
      by (cases "te_contents e") simp_all
  qed
  have readable: "\<forall>name \<in> set (completion (blobs st)). \<exists>es. ?service name = Some (JObject es)"
    unfolding perm paths using blob objs by auto
  let ?listed = "concat (map (entries_at ?service) (completion (blobs st)))"
  let ?k0 = "foldl ?set [] (headerBlob st)"
  let ?kd = "foldl ?set ?k0 ?listed"
  have load: "loadCore completion ?service [] = Inr ?kd"
    by (simp add: loadCore_def head populateFromSerializable_def blobNames_strings
        loadBlobs_fold [OF readable])
  have listed: "set ?listed = (\<Union>e \<in> set (tree st). set (data_entries (te_contents e)))"
  proof -
    have "set ?listed = (\<Union>name \<in> set (blobs st). set (entries_at ?service name))"
      by (simp add: perm)
    also have "\<dots> = (\<Union>e \<in> set (tree st). set (entries_at ?service (te_path e)))"
      unfolding paths by auto
    also have "\<dots> = (\<Union>e \<in> set (tree st). set (data_entries (te_contents e)))"
      using blob by (simp add: entries_at_def)
    finally show ?thesis .
  qed
  have all: "set (headerBlob st @ ?listed) = set (written st)"
    unfolding set_append listed by (auto simp: written_def)
  have kd: "?kd = foldl ?set [] (headerBlob st @ ?listed)" by simp
  from ok have dist: "distinct (map fst (written st))" by (simp add: content_ok_def)
  have unique: "e = e'" if "(k, e) \<in> set (written st)" "(k, e') \<in> set (written st)" for k e e'
    using dist that by (meson eq_key_imp_eq_value)
  have "(Map_get ?kd k = Some e) = ((k, e) \<in> set (written st))" for k e
  proof
    assume "Map_get ?kd k = Some e"
    then show "(k, e) \<in> set (written st)"
      unfolding kd using populate_get [of "[]" "headerBlob st @ ?listed" k e] all by auto
  next
    assume mem: "(k, e) \<in> set (written st)"
    then have "k \<in> fst ` set (headerBlob st @ ?listed)"
      unfolding all by force
    from populate_has [OF this, of "[]"] obtain e' where
      e': "Map_get ?kd k = Some e'" unfolding kd by blast
    then have "(k, e') \<in> set (written st)"
      unfolding kd using populate_get [of "[]" "headerBlob st @ ?listed" k e'] all by auto
    with mem unique have "e' = e" by blast
    with e' show "Map_get ?kd k = Some e" by simp
  qed
  with load show ?thesis by blast
qed

lemma blob_data_written:
  assumes "names_ok st"
  shows "concat (map blob_data
           (addBlobToTree (tree st) snapshotFileName
              (JObject [(''blobs'', JArray (map JString (blobs st))),
                        (''content'', JObject (headerBlob st))])))
         = written st"
proof -
  have "blob_data e = data_entries (te_contents e)" if "e \<in> set (tree st)" for e
  proof -
    from names_not_header [OF assms] that have "te_path e \<noteq> snapshotFileName" by force
    then show ?thesis by (simp add: blob_data_def)
  qed
  then have m: "map blob_data (tree st) = map (\<lambda>e. data_entries (te_contents e)) (tree st)"
    by simp
  have h: "blob_data \<lparr>te_path = snapshotFileName,
                       te_contents = JObject [(''blobs'', JArray (map JString (blobs st))),
                                              (''content'', JObject (headerBlob st))]\<rparr>
             = headerBlob st"
    by (simp add: blob_data_def)
  show ?thesis
    by (simp add: addBlobToTree_def written_def m h)
qed

lemma legacy_load:
  assumes "service snapshotFileName = Some (JObject props)"
    and "\<forall>listed. Map_get props ''blobs'' \<noteq> Some (JArray listed)"
  shows "loadCore completion service kd0 = populateFromSerializable (JObject props) kd0"
  using assms
  by (auto simp: loadCore_def split: option.splits json.splits)

text \<open>
  What does hold of snapshot and load: for every data object whose keys are distinct and
  none of which is \<open>__proto__\<close>, whose snapshot returns a tree, and whatever the order in
  which the reads of the listed blobs complete, \<open>loadCore\<close> from that tree succeeds and
  the kernel then maps every key of the data to \<open>{ type, value: JSON.parse(text) }\<close> and
  holds no other key; the blobs of the tree together hold exactly these entries, each key
  in one blob only. And a header whose parsed body is an object without a \<open>blobs\<close> array is
  populated as a single data object.
\<close>

lemma snapshot_load_roundtrip:
  assumes "distinct (map fst data)" and "snapshot JSON_parse data = Inr t"
    and "\<forall>names. set (completion names) = set names"
    and "''__proto__'' \<notin> fst ` set data"
  shows "(\<exists>kd. loadCore completion (readTree t) [] = Inr kd
               \<and> (\<forall>key. Map_get kd key
                          = map_of (map (\<lambda>(k, v). (k, parsed_entry JSON_parse v)) data) key))
         \<and> distinct (map fst (concat (map blob_data t)))
         \<and> set (concat (map blob_data t))
             = set (map (\<lambda>(k, v). (k, parsed_entry JSON_parse v)) data)
         \<and> (\<forall>service props kd0.
               service snapshotFileName = Some (JObject props)
               \<and> (\<forall>listed. Map_get props ''blobs'' \<noteq> Some (JArray listed))
             \<longrightarrow> loadCore completion service kd0
                   = populateFromSerializable (JObject props) kd0)"
proof -
  let ?expected = "map (\<lambda>(k, v). (k, parsed_entry JSON_parse v)) data"
  from assms(2) obtain st where
    loop: "snapshot_loop JSON_parse data snapshot_init = Inr st" and
    t: "t = addBlobToTree (tree st) snapshotFileName
              (JObject [(''blobs'', JArray (map JString (blobs st))),
                        (''content'', JObject (headerBlob st))])"
    by (auto simp: snapshot_def split: sum.splits)
  have names: "names_ok st"
    using names_ok_init loop by (rule snapshot_loop_names)
  have "content_ok JSON_parse ([] @ data) st"
    using content_ok_init _ loop assms(4) by (rule content_ok_loop) (simp add: assms(1))
  then have ok: "content_ok JSON_parse data st" by simp
  then have w: "set (written st) = set ?expected" "distinct (map fst (written st))"
    by (simp_all add: content_ok_def)
  from assms(3) have perm: "set (completion (blobs st)) = set (blobs st)" by simp
  from load_written [of st JSON_parse data completion, OF names ok perm] t obtain kd where
    load: "loadCore completion (readTree t) [] = Inr kd" and
    kd: "\<And>k e. (Map_get kd k = Some e) = ((k, e) \<in> set (written st))"
    by blast
  have dist: "distinct (map fst ?expected)"
    using assms(1) by (simp add: comp_def case_prod_beta)
  have "Map_get kd key = map_of ?expected key" for key
  proof (cases "map_of ?expected key")
    case None
    then have "key \<notin> fst ` set ?expected" by (simp add: map_of_eq_None_iff)
    then have "\<And>e. (key, e) \<notin> set (written st)" unfolding w(1) by force
    then have "Map_get kd key = None" using kd by (cases "Map_get kd key") auto
    with None show ?thesis by simp
  next
    case (Some e)
    then have "(key, e) \<in> set ?expected" by (rule map_of_SomeD)
    then have "Map_get kd key = Some e" using kd w(1) by simp
    with Some show ?thesis by simp
  qed
  with load have first: "\<exists>kd. loadCore completion (readTree t) [] = Inr kd
               \<and> (\<forall>key. Map_get kd key = map_of ?expected key)"
    by blast
  have blobs: "concat (map blob_data t) = written st"
    unfolding t using names by (rule blob_data_written)
  from first w blobs legacy_load show ?thesis by auto
qed

lemma Q_snapshot: "snapshot parse_stub Q_data = Inr Q_tree"
  by (simp add: snapshot_def Q_data_def Q_tree_def snapshot_step_def snapshot_small_def
      snapshot_init_def parse_stub_def addBlobToTree_def serializable_json_def
      setProperty_def Map_set_def MinValueSizeSeparateSnapshotBlob_def
      MaxSnapshotBlobSize_def snapshotFileName_def)

text \<open>
  C5, evaluated on the kernel state with the two entries \<open>k\<close> (type \<open>Shared\<close>, text \<open>7\<close>)
  and \<open>__proto__\<close> (type \<open>Plain\<close>, text \<open>1\<close>): the snapshot returns a tree whose header
  content holds \<open>k\<close> only, and loading from that tree gives a kernel that holds \<open>k\<close> with
  the type and the parsed value it was serialized with and no entry for \<open>__proto__\<close>,
  which the data held.
\<close>

theorem C5_proto_key_is_lost:
  "snapshot parse_stub Q_data = Inr Q_tree
   \<and> Map_get Q_data ''__proto__'' = Some \<lparr>ser_type = ''Plain'', ser_value = Some ''1''\<rparr>
   \<and> concat (map blob_data Q_tree)
       = [(''k'', JObject [(''type'', JString ''Shared''), (''value'', JString ''7'')])]
   \<and> loadCore rev (readTree Q_tree) []
       = Inr [(''k'', JObject [(''type'', JString ''Shared''), (''value'', JString ''7'')])]
   \<and> Map_get [(''k'', JObject [(''type'', JString ''Shared''), (''value'', JString ''7'')])]
        ''__proto__'' = None"
  by (simp add: Q_snapshot)
     (simp add: Q_data_def Q_tree_def blob_data_def loadCore_def readTree_def
        snapshotFileName_def populateFromSerializable_def
        Map_set_def)

end
